theory Spec2Isabelle
  imports Complex_Main "HOL-Library.Multiset"
begin

section \<open>The OpenCL load generator \<open>gpu_load_cl.cpp\<close>\<close>

subsection \<open>Machine integers and single-precision arithmetic\<close>

text \<open>
  The kernel converts the work item's \<open>size_t\<close> global id to a 32-bit \<open>int\<close>, and the
  host converts the element count the same way: the value wraps into the signed range.
\<close>

definition to_int32 :: "nat \<Rightarrow> int" where
  "to_int32 n = (int n + 2 ^ 31) mod 2 ^ 32 - 2 ^ 31"

text \<open>
  The arithmetic on \<open>float\<close> belongs to the device (kernel) or to the host's compiler,
  not to this program: it is a parameter. \<open>fof_int\<close> is the cast \<open>(float)n\<close> and
  \<open>flit\<close> the value of a decimal literal such as \<open>0.01f\<close>.
\<close>

record 'f float_ops =
  fmul :: "'f \<Rightarrow> 'f \<Rightarrow> 'f"
  fadd :: "'f \<Rightarrow> 'f \<Rightarrow> 'f"
  fsub :: "'f \<Rightarrow> 'f \<Rightarrow> 'f"
  fdiv :: "'f \<Rightarrow> 'f \<Rightarrow> 'f"
  fsin :: "'f \<Rightarrow> 'f"
  fcos :: "'f \<Rightarrow> 'f"
  ffabs :: "'f \<Rightarrow> 'f"
  fof_int :: "int \<Rightarrow> 'f"
  flit :: "rat \<Rightarrow> 'f"

text \<open>
  What is assumed of the arithmetic where a claim is about finite values. \<open>rv x\<close> is the
  real number that the float \<open>x\<close> stands for, or \<open>None\<close> when \<open>x\<close> is an infinity or a NaN,
  and \<open>fmax\<close> is the largest finite magnitude. Each clause holds of IEEE 754 single
  precision with rounding to nearest (\<open>fmax\<close> is \<open>FLT_MAX\<close>, just below \<open>2 ^ 128\<close>), where a
  conversion, product, sum or difference is the exact result rounded. Rounding is
  monotone and leaves a float as it is; a power of two up to \<open>2 ^ 100\<close> is a float, and so
  is an operand. Hence a bound by such a number on the exact result is a bound on the
  rounded one, and a literal, sum or product that is at least 1 (or at least an operand)
  exactly, is so rounded. The exact result overflows from \<open>fmax + 2 ^ 103\<close> on only, so not
  within 2 of \<open>fmax\<close>. Of the division only finiteness is assumed, where the quotient's
  magnitude is at most 1; of \<open>sin\<close> and \<open>cos\<close>, a finite value of magnitude at most 1 at
  every finite argument; \<open>fabs\<close> is exact.
\<close>

definition float_model :: "'f float_ops \<Rightarrow> ('f \<Rightarrow> real option) \<Rightarrow> real \<Rightarrow> bool" where
  "float_model ops rv fmax \<longleftrightarrow>
     (\<forall>x a. rv x = Some a \<longrightarrow> \<bar>a\<bar> \<le> fmax) \<and>
     (\<forall>n k. \<bar>real_of_int n\<bar> \<le> 2 ^ k \<and> k \<le> 100 \<longrightarrow>
        (\<exists>c. rv (fof_int ops n) = Some c \<and> \<bar>c\<bar> \<le> 2 ^ k)) \<and>
     (\<forall>q k. \<bar>real_of_rat q\<bar> \<le> 2 ^ k \<and> k \<le> 100 \<longrightarrow>
        (\<exists>c. rv (flit ops q) = Some c \<and> \<bar>c\<bar> \<le> 2 ^ k \<and> (1 \<le> q \<longrightarrow> 1 \<le> c))) \<and>
     (\<forall>x y a b k. rv x = Some a \<and> rv y = Some b \<and> \<bar>a * b\<bar> \<le> 2 ^ k \<and> k \<le> 100 \<longrightarrow>
        (\<exists>c. rv (fmul ops x y) = Some c \<and> \<bar>c\<bar> \<le> 2 ^ k)) \<and>
     (\<forall>x y a b. rv x = Some a \<and> rv y = Some b \<and> \<bar>b\<bar> \<le> 1 \<longrightarrow>
        (\<exists>c. rv (fmul ops x y) = Some c \<and> \<bar>c\<bar> \<le> \<bar>a\<bar>)) \<and>
     (\<forall>x y a b k. rv x = Some a \<and> rv y = Some b \<and> \<bar>a + b\<bar> \<le> 2 ^ k \<and> k \<le> 100 \<longrightarrow>
        (\<exists>c. rv (fadd ops x y) = Some c \<and> \<bar>c\<bar> \<le> 2 ^ k)) \<and>
     (\<forall>x y a b. rv x = Some a \<and> rv y = Some b \<and> \<bar>a + b\<bar> \<le> fmax + 2 \<longrightarrow>
        (\<exists>c. rv (fadd ops x y) = Some c \<and> (1 \<le> a + b \<longrightarrow> 1 \<le> c) \<and> (0 \<le> a \<longrightarrow> b \<le> c))) \<and>
     (\<forall>x y a b k. rv x = Some a \<and> rv y = Some b \<and> \<bar>a - b\<bar> \<le> 2 ^ k \<and> k \<le> 100 \<longrightarrow>
        (\<exists>c. rv (fsub ops x y) = Some c \<and> \<bar>c\<bar> \<le> 2 ^ k)) \<and>
     (\<forall>x y a b. rv x = Some a \<and> rv y = Some b \<and> b \<noteq> 0 \<and> \<bar>a\<bar> \<le> \<bar>b\<bar> \<longrightarrow>
        (\<exists>c. rv (fdiv ops x y) = Some c)) \<and>
     (\<forall>x a. rv x = Some a \<longrightarrow> (\<exists>s. rv (fsin ops x) = Some s \<and> \<bar>s\<bar> \<le> 1)) \<and>
     (\<forall>x a. rv x = Some a \<longrightarrow> (\<exists>s. rv (fcos ops x) = Some s \<and> \<bar>s\<bar> \<le> 1)) \<and>
     (\<forall>x a. rv x = Some a \<longrightarrow> rv (ffabs ops x) = Some \<bar>a\<bar>)"

subsection \<open>The kernel \<open>load_kernel\<close>\<close>

text \<open>One pass of the body of the inner \<open>for\<close> loop, at loop counter \<open>i\<close>; \<open>wid\<close> is the
  kernel's \<open>id\<close> (a name HOL has taken).\<close>

definition kernel_body :: "'f float_ops \<Rightarrow> int \<Rightarrow> int \<Rightarrow> 'f \<Rightarrow> 'f" where
  "kernel_body ops wid i val =
     (let val1 = fadd ops
            (fmul ops val
               (fsin ops (fadd ops (fmul ops (fof_int ops wid) (flit ops (1 / 100)))
                                   (fmul ops (fof_int ops i) (flit ops (1 / 1000))))))
            (fcos ops (fsub ops (fmul ops (fof_int ops wid) (flit ops (2 / 100)))
                                (fmul ops (fof_int ops i) (flit ops (2 / 1000)))))
      in fdiv ops val1 (fadd ops (flit ops (10001 / 10000)) (ffabs ops val1)))"

text \<open>The loop \<open>for (int i = 0; i < n; ++i)\<close>, from counter \<open>i\<close> on.\<close>

function kernel_loop :: "'f float_ops \<Rightarrow> int \<Rightarrow> int \<Rightarrow> int \<Rightarrow> 'f \<Rightarrow> 'f" where
  "kernel_loop ops wid i n val =
     (if i < n then kernel_loop ops wid (i + 1) n (kernel_body ops wid i val) else val)"
  by pat_completeness auto
termination
  by (relation "measure (\<lambda>(ops, wid, i, n, val). nat (n - i))") auto

declare kernel_loop.simps [simp del]

text \<open>
  One work item, with global id \<open>gid\<close>, on the buffer \<open>data\<close>. The result is the buffer
  after the work item, or \<open>None\<close> where the work item would read outside the buffer
  (\<open>id < count\<close>, here \<open>wid < cnt\<close>, with \<open>id\<close> negative or beyond the buffer's length), which C leaves
  undefined.
\<close>

definition load_kernel :: "'f float_ops \<Rightarrow> 'f list \<Rightarrow> int \<Rightarrow> nat \<Rightarrow> 'f list option" where
  "load_kernel ops data cnt gid =
     (let wid = to_int32 gid
      in if wid < cnt
         then (if 0 \<le> wid \<and> nat wid < length data
               then Some (data[nat wid := kernel_loop ops wid 0 1000 (data ! nat wid)])
               else None)
         else Some data)"

text \<open>
  One dispatch (\<open>clEnqueueNDRangeKernel\<close>) runs one work item per global id; the device
  chooses the order. \<open>dispatch\<close> runs the work items in the order given.
\<close>

definition work_item :: "'f float_ops \<Rightarrow> int \<Rightarrow> nat \<Rightarrow> 'f list option \<Rightarrow> 'f list option" where
  "work_item ops cnt gid st = (case st of None \<Rightarrow> None | Some data \<Rightarrow> load_kernel ops data cnt gid)"

definition dispatch :: "'f float_ops \<Rightarrow> 'f list \<Rightarrow> int \<Rightarrow> nat list \<Rightarrow> 'f list option" where
  "dispatch ops data cnt order = fold (work_item ops cnt) order (Some data)"

subsection \<open>The host's workload buffer\<close>

definition dataSizeElements :: nat where
  "dataSizeElements = 1024 * 1024 * 8"

text \<open>
  The loop \<open>for (size_t i = 0; i < dataSizeElements; ++i) host_data[i] = ...\<close>,
  from counter \<open>i\<close> on; \<open>n\<close> is the bound.
\<close>

function fill_host_data :: "'f float_ops \<Rightarrow> nat \<Rightarrow> nat \<Rightarrow> 'f list \<Rightarrow> 'f list" where
  "fill_host_data ops i n xs =
     (if i < n
      then fill_host_data ops (i + 1) n
             (xs[i := fadd ops (fof_int ops (int (i mod 100))) (flit ops (1 / 10))])
      else xs)"
  by pat_completeness auto
termination
  by (relation "measure (\<lambda>(ops, i, n, xs). n - i)") auto

declare fill_host_data.simps [simp del]

text \<open>
  \<open>std::vector<float> host_data(dataSizeElements)\<close> starts as zeros; the loop fills it,
  and \<open>clCreateBuffer\<close> with \<open>CL_MEM_COPY_HOST_PTR\<close> copies it to the device buffer.
\<close>

definition host_data :: "'f float_ops \<Rightarrow> 'f list" where
  "host_data ops =
     fill_host_data ops 0 dataSizeElements (replicate dataSizeElements (flit ops 0))"

subsection \<open>Text output\<close>

fun string_of_nat :: "nat \<Rightarrow> string" where
  "string_of_nat n =
     (if n < 10 then [''0123456789'' ! n]
      else string_of_nat (n div 10) @ [''0123456789'' ! (n mod 10)])"

declare string_of_nat.simps [simp del]

definition to_string :: "int \<Rightarrow> string" where
  "to_string i = (if i < 0 then ''-'' @ string_of_nat (nat (- i)) else string_of_nat (nat i))"

text \<open>\<open>s.find(sub) != std::string::npos\<close>.\<close>

fun find_str :: "string \<Rightarrow> string \<Rightarrow> bool" where
  "find_str [] sub = (sub = [])"
| "find_str (c # cs) sub = (take (length sub) (c # cs) = sub \<or> find_str cs sub)"

subsection \<open>The OpenCL runtime\<close>

type_synonym cl_int = int
type_synonym platform_id = nat
type_synonym device_id = nat
type_synonym handle = nat

definition CL_SUCCESS :: cl_int where
  "CL_SUCCESS = 0"

definition CL_DEVICE_NOT_FOUND :: cl_int where
  "CL_DEVICE_NOT_FOUND = - 1"

text \<open>
  The runtime is outside the program: what it answers to each call is a parameter. A
  create call answers an error code and the object's handle. The answers of
  \<open>clEnqueueNDRangeKernel\<close> and \<open>clFinish\<close> may change from one call to the next: their
  last argument here is the number of earlier calls on that queue.
\<close>

record backend =
  clGetPlatformIDs_count :: "cl_int \<times> nat"
  clGetPlatformIDs_list :: "cl_int \<times> platform_id list"
  clGetPlatformInfo_vendor :: "platform_id \<Rightarrow> string"
  clGetDeviceIDs_count :: "platform_id \<Rightarrow> cl_int \<times> nat"
  clGetDeviceIDs_list :: "platform_id \<Rightarrow> cl_int \<times> device_id list"
  clGetDeviceInfo_name :: "device_id \<Rightarrow> string"
  clCreateContext :: "platform_id \<Rightarrow> device_id \<Rightarrow> cl_int \<times> handle"
  clCreateCommandQueueWithProperties :: "handle \<Rightarrow> device_id \<Rightarrow> cl_int \<times> handle"
  clCreateCommandQueue :: "handle \<Rightarrow> device_id \<Rightarrow> cl_int \<times> handle"
  clCreateProgramWithSource :: "handle \<Rightarrow> cl_int \<times> handle"
  clBuildProgram :: "handle \<Rightarrow> device_id \<Rightarrow> cl_int"
  clGetProgramBuildInfo_log :: "handle \<Rightarrow> device_id \<Rightarrow> string"
  clCreateKernel :: "handle \<Rightarrow> cl_int \<times> handle"
  clCreateBuffer :: "handle \<Rightarrow> nat \<Rightarrow> cl_int \<times> handle"
  clSetKernelArg :: "handle \<Rightarrow> nat \<Rightarrow> cl_int"
  clEnqueueNDRangeKernel :: "handle \<Rightarrow> handle \<Rightarrow> nat \<Rightarrow> nat \<Rightarrow> cl_int"
  clFinish :: "handle \<Rightarrow> nat \<Rightarrow> cl_int"

text \<open>
  What a thread does that can be seen from outside: the lines it prints and the calls by
  which it creates, uses and releases objects of the runtime (contexts, queues, programs,
  kernels, buffers), in program order, each call with its arguments and the error code
  and handle the runtime answers.
\<close>

datatype event =
    Stdout string
  | Stderr string
  | CreateContext platform_id device_id cl_int handle
  | CreateCommandQueueWithProperties handle device_id cl_int handle
  | CreateCommandQueue handle device_id cl_int handle
  | CreateProgramWithSource handle cl_int handle
  | BuildProgram handle device_id cl_int
  | GetProgramBuildInfo handle device_id
  | CreateKernel handle cl_int handle
  | CreateBuffer handle nat cl_int handle
  | SetKernelArg_mem handle nat handle cl_int
  | SetKernelArg_int handle nat int cl_int
  | EnqueueNDRangeKernel handle handle nat cl_int
  | Finish handle cl_int
  | ReleaseMemObject handle
  | ReleaseKernel handle
  | ReleaseProgram handle
  | ReleaseCommandQueue handle
  | ReleaseContext handle

subsection \<open>\<open>check_cl_error\<close>\<close>

text \<open>\<open>Inl\<close> is the \<open>std::runtime_error\<close> thrown, with its message.\<close>

definition check_cl_error :: "cl_int \<Rightarrow> string \<Rightarrow> string + unit" where
  "check_cl_error err operation =
     (if err \<noteq> CL_SUCCESS
      then Inl (operation @ '' failed with error code '' @ to_string err)
      else Inr ())"

subsection \<open>\<open>run_load_on_device\<close>\<close>

text \<open>
  How a call of \<open>run_load_on_device\<close> ends: it returns, an exception leaves it, or it
  is still in its \<open>while (true)\<close> loop when the fuel (a bound on the loop's passes that
  are observed) runs out.
\<close>

datatype outcome = Returned | Threw string | Running

text \<open>
  The loop \<open>while (true)\<close> from its pass number \<open>k\<close> on. The flag says whether the loop
  was left (by one of its two \<open>break\<close>s) within the fuel.
\<close>

fun steady_loop :: "backend \<Rightarrow> int \<Rightarrow> handle \<Rightarrow> handle \<Rightarrow> nat \<Rightarrow> nat \<Rightarrow> nat \<Rightarrow> event list \<times> bool" where
  "steady_loop be device_index queue kern global_work_size k 0 = ([], False)"
| "steady_loop be device_index queue kern global_work_size k (Suc fuel) =
     (let err = clEnqueueNDRangeKernel be queue kern global_work_size k
      in if err \<noteq> CL_SUCCESS
         then ([EnqueueNDRangeKernel queue kern global_work_size err,
                Stderr (''Device '' @ to_string device_index @ '': clEnqueueNDRangeKernel failed: ''
                        @ to_string err)], True)
         else (let err2 = clFinish be queue k
               in if err2 \<noteq> CL_SUCCESS
                  then ([EnqueueNDRangeKernel queue kern global_work_size err,
                         Finish queue err2,
                         Stderr (''Device '' @ to_string device_index @ '': clFinish failed: ''
                                 @ to_string err2)], True)
                  else (case steady_loop be device_index queue kern global_work_size (Suc k) fuel of
                          (es, left) \<Rightarrow>
                            (EnqueueNDRangeKernel queue kern global_work_size err
                             # Finish queue err2 # es, left))))"

text \<open>Queue creation, with the fallback: the events, and the final \<open>err\<close> and \<open>queue\<close>.\<close>

definition create_queue :: "backend \<Rightarrow> handle \<Rightarrow> device_id \<Rightarrow> int \<Rightarrow> event list \<times> cl_int \<times> handle" where
  "create_queue be context device device_index =
     (let (err, queue) = clCreateCommandQueueWithProperties be context device
      in if err \<noteq> CL_SUCCESS
         then (let (err2, queue2) = clCreateCommandQueue be context device
               in ([CreateCommandQueueWithProperties context device err queue,
                    Stdout (''Device '' @ to_string device_index
                            @ '': clCreateCommandQueueWithProperties failed ('' @ to_string err
                            @ ''), trying clCreateCommandQueue.''),
                    CreateCommandQueue context device err2 queue2], err2, queue2))
         else ([CreateCommandQueueWithProperties context device err queue], err, queue))"

text \<open>
  The part of \<open>run_load_on_device\<close> from \<open>clCreateKernel\<close> on, once the program is
  built: kernel, buffer, arguments, the loop and the clean-up. The host array passed to
  \<open>clCreateBuffer\<close> is \<open>host_data\<close>; the call's event keeps the size in bytes.
\<close>

definition run_kernel :: "backend \<Rightarrow> int \<Rightarrow> handle \<Rightarrow> handle \<Rightarrow> handle \<Rightarrow> nat \<Rightarrow> event list \<times> outcome" where
  "run_kernel be device_index context queue program fuel =
     (let (err, kern) = clCreateKernel be program;
          t1 = [CreateKernel program err kern]
      in (case check_cl_error err ''clCreateKernel'' of
            Inl e \<Rightarrow> (t1, Threw e)
          | Inr _ \<Rightarrow>
     (let (err2, buffer) = clCreateBuffer be context (4 * dataSizeElements);
          t2 = t1 @ [CreateBuffer context (4 * dataSizeElements) err2 buffer]
      in (case check_cl_error err2 ''clCreateBuffer'' of
            Inl e \<Rightarrow> (t2, Threw e)
          | Inr _ \<Rightarrow>
     (let err3 = clSetKernelArg be kern 0;
          t3 = t2 @ [SetKernelArg_mem kern 0 buffer err3]
      in (case check_cl_error err3 ''clSetKernelArg(buffer)'' of
            Inl e \<Rightarrow> (t3, Threw e)
          | Inr _ \<Rightarrow>
     (let count_arg = to_int32 dataSizeElements;
          err4 = clSetKernelArg be kern 1;
          t4 = t3 @ [SetKernelArg_int kern 1 count_arg err4]
      in (case check_cl_error err4 ''clSetKernelArg(count)'' of
            Inl e \<Rightarrow> (t4, Threw e)
          | Inr _ \<Rightarrow>
     (let global_work_size = dataSizeElements;
          t5 = t4 @ [Stdout (''Device '' @ to_string device_index
                             @ '': Entering continuous kernel execution loop...'')];
          (es, left) = steady_loop be device_index queue kern global_work_size 0 fuel
      in if left
         then (t5 @ es
               @ [Stdout (''Device '' @ to_string device_index @ '': Exited kernel execution loop.''),
                  ReleaseMemObject buffer, ReleaseKernel kern, ReleaseProgram program,
                  ReleaseCommandQueue queue, ReleaseContext context,
                  Stdout (''Finished load and cleaned up for Device '' @ to_string device_index)],
               Returned)
         else (t5 @ es, Running))))))))))"

definition run_load_on_device :: "backend \<Rightarrow> platform_id \<Rightarrow> device_id \<Rightarrow> int \<Rightarrow> nat \<Rightarrow> event list \<times> outcome" where
  "run_load_on_device be platform device device_index fuel =
     (let deviceName = clGetDeviceInfo_name be device;
          t0 = [Stdout (''Starting load on Device '' @ to_string device_index @ '': '' @ deviceName)];
          (err, context) = clCreateContext be platform device;
          t1 = t0 @ [CreateContext platform device err context]
      in (case check_cl_error err ''clCreateContext'' of
            Inl e \<Rightarrow> (t1, Threw e)
          | Inr _ \<Rightarrow>
     (let (qs, err2, queue) = create_queue be context device device_index;
          t2 = t1 @ qs
      in (case check_cl_error err2 ''clCreateCommandQueue(WithProperties)'' of
            Inl e \<Rightarrow> (t2, Threw e)
          | Inr _ \<Rightarrow>
     (let (err3, program) = clCreateProgramWithSource be context;
          t3 = t2 @ [CreateProgramWithSource context err3 program]
      in (case check_cl_error err3 ''clCreateProgramWithSource'' of
            Inl e \<Rightarrow> (t3, Threw e)
          | Inr _ \<Rightarrow>
     (let err4 = clBuildProgram be program device;
          t4 = t3 @ [BuildProgram program device err4];
          (t5, checked) =
             (if err4 \<noteq> CL_SUCCESS
              then (t4 @ [GetProgramBuildInfo program device, GetProgramBuildInfo program device,
                          Stderr (''Device '' @ to_string device_index @ '' Kernel build log:\<newline>''
                                  @ clGetProgramBuildInfo_log be program device)],
                    check_cl_error err4 ''clBuildProgram'')
              else (t4, Inr ()))
      in (case checked of
            Inl e \<Rightarrow> (t5, Threw e)
          | Inr _ \<Rightarrow>
     (let (ks, res) = run_kernel be device_index context queue program fuel
      in (t5 @ ks, res))))))))))"

subsection \<open>\<open>main\<close>\<close>

text \<open>
  The loop over the platforms, with the pairs found so far. \<open>Inl\<close> is the exception of
  \<open>check_cl_error\<close>, which ends the loop. The vector \<open>devices\<close> has \<open>num_devices\<close>
  entries; the runtime writes at most that many, and the others stay null (0).
\<close>

fun scan_platforms :: "backend \<Rightarrow> platform_id list \<Rightarrow> (platform_id \<times> device_id) list
    \<Rightarrow> event list \<times> (string + (platform_id \<times> device_id) list)" where
  "scan_platforms be [] intel_gpus = ([], Inr intel_gpus)"
| "scan_platforms be (platform # rest) intel_gpus =
     (let platformVendor = clGetPlatformInfo_vendor be platform
      in if find_str platformVendor ''Intel'' \<or> find_str platformVendor ''intel''
         then (let (err, num_devices) = clGetDeviceIDs_count be platform
               in if err = CL_DEVICE_NOT_FOUND
                  then scan_platforms be rest intel_gpus
                  else if err \<noteq> CL_SUCCESS
                  then (let (es, r) = scan_platforms be rest intel_gpus
                        in (Stderr (''Warning: clGetDeviceIDs (count) for platform '' @ platformVendor
                                    @ '' returned '' @ to_string err) # es, r))
                  else if num_devices > 0
                  then (let (err2, written) = clGetDeviceIDs_list be platform;
                            devices = take num_devices (written @ replicate num_devices 0)
                        in (case check_cl_error err2 ''clGetDeviceIDs (list)'' of
                              Inl e \<Rightarrow> ([], Inl e)
                            | Inr _ \<Rightarrow>
                                scan_platforms be rest (intel_gpus @ map (Pair platform) devices)))
                  else scan_platforms be rest intel_gpus)
         else scan_platforms be rest intel_gpus)"

text \<open>
  How the process ends: \<open>main\<close> returns a status; or \<open>std::terminate\<close> is called,
  which is what C++ does when an exception leaves the function a \<open>std::thread\<close> runs
  (the handlers of \<open>main\<close> guard the main thread only, and \<open>run_load_on_device\<close> has
  none); or \<open>main\<close> is still waiting in \<open>join\<close> for a thread that is in its loop.
\<close>

datatype process_status = Exit int | Terminate | Blocked

record main_result =
  printed :: "event list"
  threads :: "(platform_id \<times> device_id \<times> int) list"
  runs :: "(event list \<times> outcome) list"
  status :: process_status

definition threw :: "event list \<times> outcome \<Rightarrow> bool" where
  "threw r = (case snd r of Threw e \<Rightarrow> True | _ \<Rightarrow> False)"

text \<open>
  The loop that starts the threads: one \<open>emplace_back\<close> for each pair, with the counter
  \<open>device_idx_counter\<close>, and with several GPUs a sleep of 500 ms after each. A runner
  that throws ends the process on the spot, and \<open>main\<close> may still be in this loop then.
  How many more threads \<open>main\<close> gets to start before that is a matter of timing, so it
  is a parameter: \<open>lag i\<close> is that number for an exception of the runner with index
  \<open>i\<close> (0 when the exception comes within the sleep that follows the runner's start).
  \<open>pending\<close> is the number of starts left once an exception is on its way. The result
  lists, for each thread started, its arguments and its run; when the process is
  terminated, the run of another thread is cut short somewhere along its trace.
\<close>

fun start_threads :: "backend \<Rightarrow> nat \<Rightarrow> (int \<Rightarrow> nat) \<Rightarrow> (platform_id \<times> device_id) list \<Rightarrow> int
    \<Rightarrow> nat option \<Rightarrow> ((platform_id \<times> device_id \<times> int) \<times> event list \<times> outcome) list" where
  "start_threads be fuel lag [] device_idx_counter pending = []"
| "start_threads be fuel lag (pair # rest) device_idx_counter pending =
     (if pending = Some 0 then []
      else (let r = run_load_on_device be (fst pair) (snd pair) device_idx_counter fuel;
                waited = map_option (\<lambda>m. m - 1) pending;
                pending2 = (if threw r
                            then (case waited of
                                    None \<Rightarrow> Some (lag device_idx_counter)
                                  | Some m \<Rightarrow> Some (min m (lag device_idx_counter)))
                            else waited)
            in ((fst pair, snd pair, device_idx_counter), r)
               # start_threads be fuel lag rest (device_idx_counter + 1) pending2))"

definition main :: "backend \<Rightarrow> nat \<Rightarrow> (int \<Rightarrow> nat) \<Rightarrow> main_result" where
  "main be fuel lag =
     (let (err, num_platforms) = clGetPlatformIDs_count be
      in if err \<noteq> CL_SUCCESS \<or> num_platforms = 0
         then \<lparr>printed = [Stderr ''Failed to find any OpenCL platforms or no platforms reported.''],
               threads = [], runs = [], status = Exit 1\<rparr>
         else
     (let (err2, written) = clGetPlatformIDs_list be;
          platforms = take num_platforms (written @ replicate num_platforms 0)
      in (case check_cl_error err2 ''clGetPlatformIDs'' of
            Inl e \<Rightarrow> \<lparr>printed = [Stderr (''OpenCL Runtime Error: '' @ e)],
                       threads = [], runs = [], status = Exit 1\<rparr>
          | Inr _ \<Rightarrow>
     (let (es, found) = scan_platforms be platforms []
      in (case found of
            Inl e \<Rightarrow> \<lparr>printed = es @ [Stderr (''OpenCL Runtime Error: '' @ e)],
                       threads = [], runs = [], status = Exit 1\<rparr>
          | Inr intel_gpus_with_platforms \<Rightarrow>
              if intel_gpus_with_platforms = []
              then \<lparr>printed = es @ [Stderr ''No Intel GPUs found via OpenCL.''],
                    threads = [], runs = [], status = Exit 1\<rparr>
              else
     (let started = start_threads be fuel lag intel_gpus_with_platforms 0 None;
          rs = map snd started
      in \<lparr>printed = es @ [Stdout (''Found '' @ string_of_nat (length intel_gpus_with_platforms)
                                  @ '' Intel GPU(s) via OpenCL.'')],
           threads = map fst started, runs = rs,
           status = (if list_ex threw rs then Terminate
                     else if list_all (\<lambda>r. snd r = Returned) rs then Exit 0
                     else Blocked)\<rparr>))))))"

text \<open>
  For stating what makes the scan fail: the platform passes the vendor filter, the query
  for the number of its GPUs succeeds with a number above 0, and the query for the list
  fails.
\<close>

definition list_query_fails :: "backend \<Rightarrow> platform_id \<Rightarrow> bool" where
  "list_query_fails be p \<longleftrightarrow>
     (find_str (clGetPlatformInfo_vendor be p) ''Intel''
      \<or> find_str (clGetPlatformInfo_vendor be p) ''intel'') \<and>
     fst (clGetDeviceIDs_count be p) = CL_SUCCESS \<and> 0 < snd (clGetDeviceIDs_count be p) \<and>
     fst (clGetDeviceIDs_list be p) \<noteq> CL_SUCCESS"

subsection \<open>The objects a trace names\<close>

text \<open>
  For stating which objects of the runtime a thread works on: the objects that the
  create calls of a trace returned with \<open>CL_SUCCESS\<close>, and the objects that the calls
  of a trace were handed as arguments. A handle is tagged with the kind of its object.
\<close>

datatype object = Context handle | Queue handle | Program handle | Kernel handle | Mem handle

fun created :: "event \<Rightarrow> object list" where
  "created (CreateContext p d err h) = (if err = CL_SUCCESS then [Context h] else [])"
| "created (CreateCommandQueueWithProperties c d err h) = (if err = CL_SUCCESS then [Queue h] else [])"
| "created (CreateCommandQueue c d err h) = (if err = CL_SUCCESS then [Queue h] else [])"
| "created (CreateProgramWithSource c err h) = (if err = CL_SUCCESS then [Program h] else [])"
| "created (CreateKernel p err h) = (if err = CL_SUCCESS then [Kernel h] else [])"
| "created (CreateBuffer c n err h) = (if err = CL_SUCCESS then [Mem h] else [])"
| "created _ = []"

fun used :: "event \<Rightarrow> object list" where
  "used (CreateCommandQueueWithProperties c d err h) = [Context c]"
| "used (CreateCommandQueue c d err h) = [Context c]"
| "used (CreateProgramWithSource c err h) = [Context c]"
| "used (BuildProgram p d err) = [Program p]"
| "used (GetProgramBuildInfo p d) = [Program p]"
| "used (CreateKernel p err h) = [Program p]"
| "used (CreateBuffer c n err h) = [Context c]"
| "used (SetKernelArg_mem k i b err) = [Kernel k, Mem b]"
| "used (SetKernelArg_int k i v err) = [Kernel k]"
| "used (EnqueueNDRangeKernel q k g err) = [Queue q, Kernel k]"
| "used (Finish q err) = [Queue q]"
| "used (ReleaseMemObject b) = [Mem b]"
| "used (ReleaseKernel k) = [Kernel k]"
| "used (ReleaseProgram p) = [Program p]"
| "used (ReleaseCommandQueue q) = [Queue q]"
| "used (ReleaseContext c) = [Context c]"
| "used _ = []"

definition objects_created :: "event list \<Rightarrow> object list" where
  "objects_created t = concat (map created t)"

definition objects_used :: "event list \<Rightarrow> object list" where
  "objects_used t = concat (map used t)"

subsection \<open>Concrete inputs\<close>

text \<open>Exact real arithmetic in the place of the device's \<open>float\<close>.\<close>

definition real_ops :: "real float_ops" where
  "real_ops = \<lparr>fmul = (*), fadd = (+), fsub = (-), fdiv = (/), fsin = sin, fcos = cos,
                ffabs = abs, fof_int = of_int, flit = of_rat\<rparr>"

text \<open>
  An arithmetic with values that are not finite: the reals of magnitude up to \<open>2 ^ 127\<close>,
  where a result that exceeds the bound by at most 2 is rounded to the bound, and one
  beyond that is lost (\<open>None\<close>), as is a division by 0 and every operation on \<open>None\<close>.
\<close>

definition bounded_max :: real where
  "bounded_max = 2 ^ 127"

definition bounded_round :: "real \<Rightarrow> real option" where
  "bounded_round r =
     (if \<bar>r\<bar> \<le> bounded_max then Some r
      else if \<bar>r\<bar> \<le> bounded_max + 2 then Some (if r < 0 then - bounded_max else bounded_max)
      else None)"

definition bounded_rv :: "real option \<Rightarrow> real option" where
  "bounded_rv x = (case x of None \<Rightarrow> None
                   | Some a \<Rightarrow> if \<bar>a\<bar> \<le> bounded_max then Some a else None)"

definition bounded_op2 :: "(real \<Rightarrow> real \<Rightarrow> real) \<Rightarrow> real option \<Rightarrow> real option \<Rightarrow> real option" where
  "bounded_op2 f x y =
     (case bounded_rv x of None \<Rightarrow> None
      | Some a \<Rightarrow> (case bounded_rv y of None \<Rightarrow> None | Some b \<Rightarrow> bounded_round (f a b)))"

definition bounded_ops :: "real option float_ops" where
  "bounded_ops =
     \<lparr>fmul = bounded_op2 (*), fadd = bounded_op2 (+), fsub = bounded_op2 (-),
      fdiv = (\<lambda>x y. if bounded_rv y = Some 0 then None else bounded_op2 (/) x y),
      fsin = (\<lambda>x. map_option sin (bounded_rv x)),
      fcos = (\<lambda>x. map_option cos (bounded_rv x)),
      ffabs = (\<lambda>x. map_option abs (bounded_rv x)),
      fof_int = (\<lambda>n. bounded_round (of_int n)),
      flit = (\<lambda>q. bounded_round (of_rat q))\<rparr>"

text \<open>
  A runtime with one Intel platform and two GPUs, on which every call succeeds. The
  handles it returns are numbered from the device, so that no two objects share one.
\<close>

definition mock :: backend where
  "mock = \<lparr>clGetPlatformIDs_count = (0, 1),
           clGetPlatformIDs_list = (0, [1]),
           clGetPlatformInfo_vendor = (\<lambda>p. ''Intel(R) Corporation''),
           clGetDeviceIDs_count = (\<lambda>p. (0, 2)),
           clGetDeviceIDs_list = (\<lambda>p. (0, [10, 20])),
           clGetDeviceInfo_name = (\<lambda>d. ''Intel(R) Arc(TM) Graphics''),
           clCreateContext = (\<lambda>p d. (0, d + 1)),
           clCreateCommandQueueWithProperties = (\<lambda>c d. (0, c + 1)),
           clCreateCommandQueue = (\<lambda>c d. (0, c + 2)),
           clCreateProgramWithSource = (\<lambda>c. (0, c + 3)),
           clBuildProgram = (\<lambda>p d. 0),
           clGetProgramBuildInfo_log = (\<lambda>p d. ''error: use of undeclared identifier''),
           clCreateKernel = (\<lambda>p. (0, p + 1)),
           clCreateBuffer = (\<lambda>c n. (0, c + 5)),
           clSetKernelArg = (\<lambda>k i. 0),
           clEnqueueNDRangeKernel = (\<lambda>q k g n. 0),
           clFinish = (\<lambda>q n. 0)\<rparr>"

text \<open>The same runtime when the kernel does not compile for the first GPU.\<close>

definition mock_build_failure :: backend where
  "mock_build_failure = mock\<lparr>clBuildProgram := (\<lambda>p d. if d = 10 then - 11 else 0)\<rparr>"

text \<open>
  The same runtime when it accepts every dispatch on the first GPU's queue and fails
  every wait for completion there, the first one included.
\<close>

definition mock_sync_failure :: backend where
  "mock_sync_failure = mock\<lparr>clFinish := (\<lambda>q n. if q = 12 then - 36 else 0)\<rparr>"

text \<open>The same runtime without the modern way of creating a queue.\<close>

definition mock_legacy_queue :: backend where
  "mock_legacy_queue = mock\<lparr>clCreateCommandQueueWithProperties := (\<lambda>c d. (- 30, 0))\<rparr>"

text \<open>
  Two Intel platforms with one GPU each, where a query about the first platform's
  devices fails: the query for the list, or the query for the number.
\<close>

definition mock_two_platforms :: backend where
  "mock_two_platforms =
     mock\<lparr>clGetPlatformIDs_count := (0, 2), clGetPlatformIDs_list := (0, [1, 2]),
          clGetDeviceIDs_count := (\<lambda>p. (0, 1)),
          clGetDeviceIDs_list := (\<lambda>p. if p = 1 then (0, [10]) else (0, [20]))\<rparr>"

definition mock_list_failure :: backend where
  "mock_list_failure =
     mock_two_platforms\<lparr>clGetDeviceIDs_list := (\<lambda>p. if p = 1 then (- 5, []) else (0, [20]))\<rparr>"

definition mock_count_failure :: backend where
  "mock_count_failure =
     mock_two_platforms\<lparr>clGetDeviceIDs_count := (\<lambda>p. if p = 1 then (- 5, 0) else (0, 1))\<rparr>"

text \<open>A runtime whose only platform is another vendor's.\<close>

definition mock_other_vendor :: backend where
  "mock_other_vendor = mock\<lparr>clGetPlatformInfo_vendor := (\<lambda>p. ''NVIDIA Corporation'')\<rparr>"

section \<open>Properties\<close>

subsection \<open>The kernel\<close>

lemma to_int32_small: "n < 2 ^ 31 \<Longrightarrow> to_int32 n = int n"
  by (simp add: to_int32_def)

lemma load_kernel_inactive: "cnt \<le> to_int32 gid \<Longrightarrow> load_kernel ops data cnt gid = Some data"
  by (simp add: load_kernel_def)

lemma load_kernel_frame:
  assumes "load_kernel ops data cnt gid = Some data'"
  shows "length data' = length data"
    and "k \<noteq> nat (to_int32 gid) \<Longrightarrow> data' ! k = data ! k"
  using assms by (auto simp: load_kernel_def Let_def split: if_splits)

lemma load_kernel_own:
  assumes "load_kernel ops data cnt gid = Some data'" and "to_int32 gid < cnt"
  shows "data' ! nat (to_int32 gid)
         = kernel_loop ops (to_int32 gid) 0 1000 (data ! nat (to_int32 gid))"
  using assms by (auto simp: load_kernel_def Let_def split: if_splits)

lemma load_kernel_defined:
  assumes "gid < 2 ^ 31" and "cnt \<le> int (length data)"
  shows "load_kernel ops data cnt gid \<noteq> None"
  using assms by (auto simp: load_kernel_def Let_def to_int32_small)

text \<open>
  Claim C10. A work item writes only its own element. Here \<open>to_int32 gid\<close> is the
  kernel's \<open>id\<close>, which is the global id itself whenever that fits an \<open>int\<close>. A work
  item with \<open>id \<ge> count\<close> returns the buffer as it was. A work item that runs leaves
  the length and every element but its own as they were, and its own element becomes
  the value of the 1000 passes of the loop on the old element and the id, so that two
  buffers which agree at that index give the same output there. Under the sizes the
  host uses (ids below \<open>2^31\<close>, count no larger than the buffer) it does run.
\<close>

theorem load_kernel_writes_own_element_only:
  "(gid < 2 ^ 31 \<longrightarrow> to_int32 gid = int gid) \<and>
   (cnt \<le> to_int32 gid \<longrightarrow> load_kernel ops data cnt gid = Some data) \<and>
   (load_kernel ops data cnt gid = Some data' \<longrightarrow>
      length data' = length data \<and>
      (\<forall>k. k \<noteq> nat (to_int32 gid) \<longrightarrow> data' ! k = data ! k)) \<and>
   (load_kernel ops data cnt gid = Some data' \<and> to_int32 gid < cnt \<longrightarrow>
      data' ! nat (to_int32 gid)
      = kernel_loop ops (to_int32 gid) 0 1000 (data ! nat (to_int32 gid))) \<and>
   (load_kernel ops data cnt gid = Some data' \<and> load_kernel ops data2 cnt gid = Some data2' \<and>
    data ! nat (to_int32 gid) = data2 ! nat (to_int32 gid) \<longrightarrow>
      data' ! nat (to_int32 gid) = data2' ! nat (to_int32 gid)) \<and>
   (gid < 2 ^ 31 \<and> cnt \<le> int (length data) \<longrightarrow> load_kernel ops data cnt gid \<noteq> None)"
proof (intro conjI impI)
  assume "load_kernel ops data cnt gid = Some data' \<and> load_kernel ops data2 cnt gid = Some data2' \<and>
    data ! nat (to_int32 gid) = data2 ! nat (to_int32 gid)"
  then show "data' ! nat (to_int32 gid) = data2' ! nat (to_int32 gid)"
    by (cases "to_int32 gid < cnt") (auto simp: load_kernel_own load_kernel_inactive)
qed (auto simp: to_int32_small load_kernel_inactive load_kernel_frame load_kernel_own
          load_kernel_defined)

theorem load_kernel_writes_own_element_only_witness:
  "load_kernel real_ops [1, 2, 3] 2 2 = Some [1, 2, 3] \<and>
   (\<exists>data'. load_kernel real_ops [1, 2, 3] 2 0 = Some data' \<and> length data' = 3 \<and>
      data' ! 1 = 2 \<and> data' ! 2 = 3 \<and> data' ! 0 = kernel_loop real_ops 0 0 1000 1)"
proof -
  have id2: "to_int32 2 = 2" and id0: "to_int32 0 = 0"
    by (simp_all add: to_int32_def)
  have "load_kernel real_ops [1, 2, 3] 2 0 \<noteq> None"
    using load_kernel_writes_own_element_only [of 0 2 real_ops "[1, 2, 3]"] by simp
  then obtain data' where d: "load_kernel real_ops [1, 2, 3] 2 0 = Some data'"
    by auto
  from d have "length data' = 3 \<and> data' ! 1 = 2 \<and> data' ! 2 = 3 \<and>
      data' ! 0 = kernel_loop real_ops 0 0 1000 1"
    using load_kernel_writes_own_element_only [of 0 2 real_ops "[1, 2, 3]" data'] id0 by simp
  moreover have "load_kernel real_ops [1, 2, 3] 2 2 = Some [1, 2, 3]"
    using load_kernel_writes_own_element_only [of 2 2 real_ops "[1, 2, 3]"] id2 by simp
  ultimately show ?thesis using d by blast
qed

text \<open>
  Two work items commute: they write different elements, or they have the same id and
  are the same function.
\<close>

lemma work_item_commute:
  "work_item ops cnt a (work_item ops cnt b st) = work_item ops cnt b (work_item ops cnt a st)"
proof (cases st)
  case None
  then show ?thesis by (simp add: work_item_def)
next
  case (Some d)
  show ?thesis
  proof (cases "to_int32 a = to_int32 b")
    case True
    then have "load_kernel ops x cnt a = load_kernel ops x cnt b" for x
      by (simp add: load_kernel_def)
    then show ?thesis by (simp add: work_item_def split: option.splits)
  next
    case False
    then show ?thesis using Some
      by (auto simp: work_item_def load_kernel_def Let_def list_update_swap
               split: option.splits if_splits)
  qed
qed

lemma dispatch_snoc:
  "dispatch ops data cnt (order @ [gid]) = work_item ops cnt gid (dispatch ops data cnt order)"
  by (simp add: dispatch_def)

lemma dispatch_upt:
  assumes "length data = n" and "n < 2 ^ 31" and "k \<le> n"
  shows "dispatch ops data (int n) [0..<k] =
           Some (map (\<lambda>j. kernel_loop ops (int j) 0 1000 (data ! j)) [0..<k] @ drop k data)"
  using assms(3)
proof (induction k)
  case 0
  then show ?case by (simp add: dispatch_def)
next
  case (Suc k)
  let ?g = "\<lambda>j. kernel_loop ops (int j) 0 1000 (data ! j)"
  from Suc.prems have k: "k < n" by simp
  then have id: "to_int32 k = int k"
    using assms(2) by (simp add: to_int32_small)
  have d: "drop k data = data ! k # drop (Suc k) data"
    using k assms(1) by (simp add: Cons_nth_drop_Suc)
  have "dispatch ops data (int n) [0..<Suc k]
        = work_item ops (int n) k (Some (map ?g [0..<k] @ drop k data))"
    using Suc.IH k by (simp add: dispatch_snoc)
  also have "\<dots> = Some ((map ?g [0..<k] @ drop k data)
                          [k := kernel_loop ops (int k) 0 1000 ((map ?g [0..<k] @ drop k data) ! k)])"
    using k assms(1) by (simp add: work_item_def load_kernel_def id)
  also have "(map ?g [0..<k] @ drop k data) ! k = data ! k"
    using k assms(1) by (simp add: nth_append)
  also have "(map ?g [0..<k] @ drop k data)[k := ?g k] = map ?g [0..<Suc k] @ drop (Suc k) data"
    by (simp add: list_update_append d)
  finally show ?case .
qed

lemma dispatch_mset:
  assumes "mset orderA = mset orderB"
  shows "dispatch ops data cnt orderA = dispatch ops data cnt orderB"
proof -
  have "fold (work_item ops cnt) orderA = fold (work_item ops cnt) orderB"
    using assms by (intro fold_multiset_equiv) (auto simp: work_item_commute fun_eq_iff)
  then show ?thesis by (simp add: dispatch_def)
qed

text \<open>
  Claim C2. The kernel is deterministic. A work item is a function of the buffer, the
  count and its id (\<open>load_kernel\<close>, with the loop's 1000 passes fixed), so what can
  differ between two executions on the same inputs is the order in which the device
  runs the work items. Whatever the buffer, the count and the work items, two
  executions that run the same work items, in any two orders, end with the same buffer.
  For a dispatch as the host makes it (one work item for each element, the count equal
  to the buffer's length), every execution ends with the buffer whose element \<open>j\<close> is
  the value of the loop on the old element \<open>j\<close> and on \<open>j\<close>.
\<close>

theorem load_kernel_deterministic:
  "(mset orderA = mset orderB \<longrightarrow>
      dispatch ops data cnt orderA = dispatch ops data cnt orderB) \<and>
   (mset order = mset [0..<n] \<and> length data = n \<and> n < 2 ^ 31 \<longrightarrow>
      dispatch ops data (int n) order =
        Some (map (\<lambda>j. kernel_loop ops (int j) 0 1000 (data ! j)) [0..<n]))"
proof (intro conjI impI)
  assume "mset orderA = mset orderB"
  then show "dispatch ops data cnt orderA = dispatch ops data cnt orderB"
    by (rule dispatch_mset)
next
  assume a: "mset order = mset [0..<n] \<and> length data = n \<and> n < 2 ^ 31"
  then have "dispatch ops data (int n) order = dispatch ops data (int n) [0..<n]"
    by (intro dispatch_mset) simp
  also have "\<dots> = Some (map (\<lambda>j. kernel_loop ops (int j) 0 1000 (data ! j)) [0..<n] @ drop n data)"
    using a by (intro dispatch_upt) simp_all
  finally show "dispatch ops data (int n) order =
        Some (map (\<lambda>j. kernel_loop ops (int j) 0 1000 (data ! j)) [0..<n])"
    using a by simp
qed

theorem load_kernel_deterministic_witness:
  "mset [0, 1, 2 :: nat] = mset [2, 0, 1] \<and>
   dispatch real_ops [1, 2, 3] 3 [0, 1, 2] = dispatch real_ops [1, 2, 3] 3 [2, 0, 1] \<and>
   dispatch real_ops [1, 2, 3] 3 [2, 0, 1] =
     Some [kernel_loop real_ops 0 0 1000 1, kernel_loop real_ops 1 0 1000 2,
           kernel_loop real_ops 2 0 1000 3]"
proof -
  have m: "mset [0, 1, 2 :: nat] = mset [2, 0, 1]"
    by (simp add: add_mset_commute)
  have u: "[0..<3] = [0, 1, 2]"
    by (simp add: upt_rec)
  have n: "mset [2, 0, 1] = mset [0..<3] \<and> length [1, 2, 3 :: real] = 3 \<and> (3::nat) < 2 ^ 31"
    unfolding u by (simp add: add_mset_commute)
  have "dispatch real_ops [1, 2, 3] 3 [2, 0, 1] =
     Some [kernel_loop real_ops 0 0 1000 1, kernel_loop real_ops 1 0 1000 2,
           kernel_loop real_ops 2 0 1000 3]"
    using load_kernel_deterministic [where ops = real_ops and order = "[2, 0, 1]" and n = 3
        and data = "[1, 2, 3]"] n
    unfolding u by simp
  moreover have "dispatch real_ops [1, 2, 3] 3 [0, 1, 2] = dispatch real_ops [1, 2, 3] 3 [2, 0, 1]"
    using load_kernel_deterministic [where ops = real_ops and orderA = "[0, 1, 2]"
        and orderB = "[2, 0, 1]" and data = "[1, 2, 3]" and cnt = 3] m by blast
  ultimately show ?thesis using m by blast
qed

subsection \<open>The kernel's values stay finite\<close>

text \<open>In exact arithmetic a pass of the loop gives a value of magnitude below 1.\<close>

lemma kernel_body_real_bounded: "\<bar>kernel_body real_ops wid i v\<bar> < 1"
proof -
  have "\<bar>w / (10001 / 10000 + \<bar>w\<bar>)\<bar> < 1" for w :: real
    by (simp add: abs_if field_simps)
  then show ?thesis
    by (simp add: kernel_body_def real_ops_def Let_def of_rat_divide del: abs_divide)
qed

text \<open>In an arithmetic that meets \<open>float_model\<close>, a pass on a finite value gives a finite one.\<close>

lemma float_modelD:
  assumes "float_model ops rv fmax"
  shows "rv x = Some a \<Longrightarrow> \<bar>a\<bar> \<le> fmax"
    and "\<bar>real_of_int n\<bar> \<le> 2 ^ k \<Longrightarrow> k \<le> 100 \<Longrightarrow> \<exists>c. rv (fof_int ops n) = Some c \<and> \<bar>c\<bar> \<le> 2 ^ k"
    and "\<bar>real_of_rat q\<bar> \<le> 2 ^ k \<Longrightarrow> k \<le> 100 \<Longrightarrow>
           \<exists>c. rv (flit ops q) = Some c \<and> \<bar>c\<bar> \<le> 2 ^ k \<and> (1 \<le> q \<longrightarrow> 1 \<le> c)"
    and "rv x = Some a \<Longrightarrow> rv y = Some b \<Longrightarrow> \<bar>a * b\<bar> \<le> 2 ^ k \<Longrightarrow> k \<le> 100 \<Longrightarrow>
           \<exists>c. rv (fmul ops x y) = Some c \<and> \<bar>c\<bar> \<le> 2 ^ k"
    and "rv x = Some a \<Longrightarrow> rv y = Some b \<Longrightarrow> \<bar>b\<bar> \<le> 1 \<Longrightarrow>
           \<exists>c. rv (fmul ops x y) = Some c \<and> \<bar>c\<bar> \<le> \<bar>a\<bar>"
    and "rv x = Some a \<Longrightarrow> rv y = Some b \<Longrightarrow> \<bar>a + b\<bar> \<le> 2 ^ k \<Longrightarrow> k \<le> 100 \<Longrightarrow>
           \<exists>c. rv (fadd ops x y) = Some c \<and> \<bar>c\<bar> \<le> 2 ^ k"
    and "rv x = Some a \<Longrightarrow> rv y = Some b \<Longrightarrow> \<bar>a + b\<bar> \<le> fmax + 2 \<Longrightarrow>
           \<exists>c. rv (fadd ops x y) = Some c \<and> (1 \<le> a + b \<longrightarrow> 1 \<le> c) \<and> (0 \<le> a \<longrightarrow> b \<le> c)"
    and "rv x = Some a \<Longrightarrow> rv y = Some b \<Longrightarrow> \<bar>a - b\<bar> \<le> 2 ^ k \<Longrightarrow> k \<le> 100 \<Longrightarrow>
           \<exists>c. rv (fsub ops x y) = Some c \<and> \<bar>c\<bar> \<le> 2 ^ k"
    and "rv x = Some a \<Longrightarrow> rv y = Some b \<Longrightarrow> b \<noteq> 0 \<Longrightarrow> \<bar>a\<bar> \<le> \<bar>b\<bar> \<Longrightarrow>
           \<exists>c. rv (fdiv ops x y) = Some c"
    and "rv x = Some a \<Longrightarrow> \<exists>s. rv (fsin ops x) = Some s \<and> \<bar>s\<bar> \<le> 1"
    and "rv x = Some a \<Longrightarrow> \<exists>s. rv (fcos ops x) = Some s \<and> \<bar>s\<bar> \<le> 1"
    and "rv x = Some a \<Longrightarrow> rv (ffabs ops x) = Some \<bar>a\<bar>"
proof -
  note m0 = assms [unfolded float_model_def]
  note c1 = m0 [THEN conjunct1] and m1 = m0 [THEN conjunct2]
  note c2 = m1 [THEN conjunct1] and m2 = m1 [THEN conjunct2]
  note c3 = m2 [THEN conjunct1] and m3 = m2 [THEN conjunct2]
  note c4 = m3 [THEN conjunct1] and m4 = m3 [THEN conjunct2]
  note c5 = m4 [THEN conjunct1] and m5 = m4 [THEN conjunct2]
  note c6 = m5 [THEN conjunct1] and m6 = m5 [THEN conjunct2]
  note c7 = m6 [THEN conjunct1] and m7 = m6 [THEN conjunct2]
  note c8 = m7 [THEN conjunct1] and m8 = m7 [THEN conjunct2]
  note c9 = m8 [THEN conjunct1] and m9 = m8 [THEN conjunct2]
  note c10 = m9 [THEN conjunct1] and m10 = m9 [THEN conjunct2]
  note c11 = m10 [THEN conjunct1] and m11 = m10 [THEN conjunct2]
  note c12 = m11
  show "rv x = Some a \<Longrightarrow> \<bar>a\<bar> \<le> fmax"
    using c1 by blast
  show "\<bar>real_of_int n\<bar> \<le> 2 ^ k \<Longrightarrow> k \<le> 100 \<Longrightarrow> \<exists>c. rv (fof_int ops n) = Some c \<and> \<bar>c\<bar> \<le> 2 ^ k"
    using c2 by blast
  show "\<bar>real_of_rat q\<bar> \<le> 2 ^ k \<Longrightarrow> k \<le> 100 \<Longrightarrow>
                  \<exists>c. rv (flit ops q) = Some c \<and> \<bar>c\<bar> \<le> 2 ^ k \<and> (1 \<le> q \<longrightarrow> 1 \<le> c)"
    using c3 by blast
  show "rv x = Some a \<Longrightarrow> rv y = Some b \<Longrightarrow> \<bar>a * b\<bar> \<le> 2 ^ k \<Longrightarrow> k \<le> 100 \<Longrightarrow>
                  \<exists>c. rv (fmul ops x y) = Some c \<and> \<bar>c\<bar> \<le> 2 ^ k"
    using c4 by blast
  show "rv x = Some a \<Longrightarrow> rv y = Some b \<Longrightarrow> \<bar>b\<bar> \<le> 1 \<Longrightarrow>
                  \<exists>c. rv (fmul ops x y) = Some c \<and> \<bar>c\<bar> \<le> \<bar>a\<bar>"
    using c5 by blast
  show "rv x = Some a \<Longrightarrow> rv y = Some b \<Longrightarrow> \<bar>a + b\<bar> \<le> 2 ^ k \<Longrightarrow> k \<le> 100 \<Longrightarrow>
                  \<exists>c. rv (fadd ops x y) = Some c \<and> \<bar>c\<bar> \<le> 2 ^ k"
    using c6 by blast
  show "rv x = Some a \<Longrightarrow> rv y = Some b \<Longrightarrow> \<bar>a + b\<bar> \<le> fmax + 2 \<Longrightarrow>
                  \<exists>c. rv (fadd ops x y) = Some c \<and> (1 \<le> a + b \<longrightarrow> 1 \<le> c) \<and> (0 \<le> a \<longrightarrow> b \<le> c)"
    using c7 by blast
  show "rv x = Some a \<Longrightarrow> rv y = Some b \<Longrightarrow> \<bar>a - b\<bar> \<le> 2 ^ k \<Longrightarrow> k \<le> 100 \<Longrightarrow>
                  \<exists>c. rv (fsub ops x y) = Some c \<and> \<bar>c\<bar> \<le> 2 ^ k"
    using c8 by blast
  show "rv x = Some a \<Longrightarrow> rv y = Some b \<Longrightarrow> b \<noteq> 0 \<Longrightarrow> \<bar>a\<bar> \<le> \<bar>b\<bar> \<Longrightarrow>
                  \<exists>c. rv (fdiv ops x y) = Some c"
    using c9 by blast
  show "rv x = Some a \<Longrightarrow> \<exists>s. rv (fsin ops x) = Some s \<and> \<bar>s\<bar> \<le> 1"
    using c10 by blast
  show "rv x = Some a \<Longrightarrow> \<exists>s. rv (fcos ops x) = Some s \<and> \<bar>s\<bar> \<le> 1"
    using c11 by blast
  show "rv x = Some a \<Longrightarrow> rv (ffabs ops x) = Some \<bar>a\<bar>"
    using c12 by blast
qed

lemma abs_mult_le:
  fixes x a B :: real
  assumes "\<bar>x\<bar> \<le> B" and "\<bar>a\<bar> \<le> 1"
  shows "\<bar>x * a\<bar> \<le> B"
proof -
  have "\<bar>x\<bar> * \<bar>a\<bar> \<le> B * 1"
    using assms by (intro mult_mono) auto
  then show ?thesis by (simp add: abs_mult)
qed

lemma phase_finite:
  assumes m: "float_model ops rv fmax" and w: "\<bar>wid\<bar> \<le> 2 ^ 31" and i: "0 \<le> i" "i < 1000"
    and q1: "\<bar>real_of_rat q1\<bar> \<le> 1" and q2: "\<bar>real_of_rat q2\<bar> \<le> 1"
  shows "\<exists>c. rv (fadd ops (fmul ops (fof_int ops wid) (flit ops q1))
                        (fmul ops (fof_int ops i) (flit ops q2))) = Some c"
    and "\<exists>c. rv (fsub ops (fmul ops (fof_int ops wid) (flit ops q1))
                        (fmul ops (fof_int ops i) (flit ops q2))) = Some c"
proof -
  note d = float_modelD [OF m]
  have "\<bar>real_of_int wid\<bar> \<le> 2 ^ 31"
    using w by (metis of_int_abs of_int_le_iff of_int_numeral of_int_power)
  from d(2) [OF this] obtain x where x: "rv (fof_int ops wid) = Some x" "\<bar>x\<bar> \<le> 2 ^ 31"
    by auto
  have "\<bar>real_of_int i\<bar> \<le> 2 ^ 10"
    using i by simp
  from d(2) [OF this] obtain y where y: "rv (fof_int ops i) = Some y" "\<bar>y\<bar> \<le> 2 ^ 10"
    by auto
  from q1 d(3) [of q1 0] obtain a where a: "rv (flit ops q1) = Some a" "\<bar>a\<bar> \<le> 1"
    by auto
  from q2 d(3) [of q2 0] obtain b where b: "rv (flit ops q2) = Some b" "\<bar>b\<bar> \<le> 1"
    by auto
  have "\<bar>x * a\<bar> \<le> 2 ^ 31"
    using x(2) a(2) by (rule abs_mult_le)
  from d(4) [OF x(1) a(1) this] obtain p where p: "rv (fmul ops (fof_int ops wid) (flit ops q1)) = Some p"
      "\<bar>p\<bar> \<le> 2 ^ 31"
    by auto
  have "\<bar>y * b\<bar> \<le> 2 ^ 10"
    using y(2) b(2) by (rule abs_mult_le)
  from d(4) [OF y(1) b(1) this] obtain r where r: "rv (fmul ops (fof_int ops i) (flit ops q2)) = Some r"
      "\<bar>r\<bar> \<le> 2 ^ 10"
    by auto
  have "\<bar>p + r\<bar> \<le> 2 ^ 32" "\<bar>p - r\<bar> \<le> 2 ^ 32"
    using p(2) r(2) by simp_all
  from d(6) [OF p(1) r(1) this(1)] d(8) [OF p(1) r(1) this(2)]
  show "\<exists>c. rv (fadd ops (fmul ops (fof_int ops wid) (flit ops q1))
                        (fmul ops (fof_int ops i) (flit ops q2))) = Some c"
    and "\<exists>c. rv (fsub ops (fmul ops (fof_int ops wid) (flit ops q1))
                        (fmul ops (fof_int ops i) (flit ops q2))) = Some c"
    by auto
qed

lemma kernel_body_finite:
  assumes m: "float_model ops rv fmax" and w: "\<bar>wid\<bar> \<le> 2 ^ 31" and i: "0 \<le> i" "i < 1000"
    and v: "rv v = Some a"
  shows "\<exists>c. rv (kernel_body ops wid i v) = Some c"
proof -
  note d = float_modelD [OF m]
  let ?ps = "fadd ops (fmul ops (fof_int ops wid) (flit ops (1 / 100)))
                      (fmul ops (fof_int ops i) (flit ops (1 / 1000)))"
  let ?pc = "fsub ops (fmul ops (fof_int ops wid) (flit ops (2 / 100)))
                      (fmul ops (fof_int ops i) (flit ops (2 / 1000)))"
  have "\<exists>c. rv ?ps = Some c"
    by (rule phase_finite(1) [OF m w i]) (simp_all add: of_rat_divide)
  then obtain ps where "rv ?ps = Some ps" ..
  from d(10) [OF this] obtain s where s: "rv (fsin ops ?ps) = Some s" "\<bar>s\<bar> \<le> 1"
    by auto
  have "\<exists>c. rv ?pc = Some c"
    by (rule phase_finite(2) [OF m w i]) (simp_all add: of_rat_divide)
  then obtain pc where "rv ?pc = Some pc" ..
  from d(11) [OF this] obtain c where c: "rv (fcos ops ?pc) = Some c" "\<bar>c\<bar> \<le> 1"
    by auto
  from d(5) [OF v s(1) s(2)] obtain p where p: "rv (fmul ops v (fsin ops ?ps)) = Some p" "\<bar>p\<bar> \<le> \<bar>a\<bar>"
    by auto
  have "\<bar>a\<bar> \<le> fmax"
    using d(1) [OF v] .
  with p(2) c(2) have "\<bar>p + c\<bar> \<le> fmax + 2"
    by simp
  from d(7) [OF p(1) c(1) this] obtain w1 where
    w1: "rv (fadd ops (fmul ops v (fsin ops ?ps)) (fcos ops ?pc)) = Some w1"
    by auto
  let ?val1 = "fadd ops (fmul ops v (fsin ops ?ps)) (fcos ops ?pc)"
  have ab: "rv (ffabs ops ?val1) = Some \<bar>w1\<bar>"
    using d(12) [OF w1] .
  have "\<bar>real_of_rat (10001 / 10000)\<bar> \<le> 2 ^ 1"
    by (simp add: of_rat_divide)
  from d(3) [OF this] obtain t where t: "rv (flit ops (10001 / 10000)) = Some t" "\<bar>t\<bar> \<le> 2" "1 \<le> t"
    by auto
  have "\<bar>w1\<bar> \<le> fmax"
    using d(1) [OF w1] .
  with t(2,3) have "\<bar>t + \<bar>w1\<bar>\<bar> \<le> fmax + 2" and "1 \<le> t + \<bar>w1\<bar>" and "0 \<le> t"
    by simp_all
  from d(7) [OF t(1) ab this(1)] this(2,3) obtain dn where
    dn: "rv (fadd ops (flit ops (10001 / 10000)) (ffabs ops ?val1)) = Some dn" "1 \<le> dn" "\<bar>w1\<bar> \<le> dn"
    by auto
  from dn(2,3) have "dn \<noteq> 0" "\<bar>w1\<bar> \<le> \<bar>dn\<bar>" by simp_all
  from d(9) [OF w1 dn(1) this] show ?thesis
    by (auto simp: kernel_body_def Let_def)
qed

lemma kernel_loop_finite:
  "float_model ops rv fmax \<Longrightarrow> \<bar>wid\<bar> \<le> 2 ^ 31 \<Longrightarrow> 0 \<le> i \<Longrightarrow> n \<le> 1000 \<Longrightarrow> rv v \<noteq> None
   \<Longrightarrow> rv (kernel_loop ops wid i n v) \<noteq> None"
proof (induction ops wid i n v rule: kernel_loop.induct)
  case (1 ops wid i n v)
  show ?case
  proof (cases "i < n")
    case True
    from "1.prems"(5) obtain a where a: "rv v = Some a" by auto
    from True "1.prems"(4) have "i < 1000" by simp
    from kernel_body_finite [OF "1.prems"(1) "1.prems"(2) "1.prems"(3) this a]
    have "rv (kernel_body ops wid i v) \<noteq> None" by auto
    with "1.IH" [OF True] "1.prems" True show ?thesis
      by (subst kernel_loop.simps) simp
  next
    case False
    with "1.prems" show ?thesis by (subst kernel_loop.simps) simp
  qed
qed

lemma to_int32_range: "\<bar>to_int32 n\<bar> \<le> 2 ^ 31"
proof -
  have "0 \<le> (int n + 2 ^ 31) mod 2 ^ 32" "(int n + 2 ^ 31) mod 2 ^ 32 < 2 ^ 32"
    by simp_all
  then show ?thesis by (simp add: to_int32_def)
qed

text \<open>The arithmetic \<open>bounded_ops\<close> meets \<open>float_model\<close>, and it has results that are not finite.\<close>

lemma bounded_max_ge: "k \<le> 100 \<Longrightarrow> 2 ^ k \<le> bounded_max"
  unfolding bounded_max_def by (rule power_increasing) simp_all

lemma bounded_max_ge1: "1 \<le> bounded_max"
  using bounded_max_ge [of 0] by simp

lemma bounded_rv_SomeD: "bounded_rv x = Some a \<Longrightarrow> x = Some a \<and> \<bar>a\<bar> \<le> bounded_max"
  by (auto simp: bounded_rv_def split: option.splits if_splits)

lemma bounded_rv_Some: "\<bar>a\<bar> \<le> bounded_max \<Longrightarrow> bounded_rv (Some a) = Some a"
  by (simp add: bounded_rv_def)

lemma bounded_round_small: "\<bar>r\<bar> \<le> bounded_max \<Longrightarrow> bounded_round r = Some r"
  by (simp add: bounded_round_def)

lemma bounded_op2_small:
  "bounded_rv x = Some a \<Longrightarrow> bounded_rv y = Some b \<Longrightarrow> \<bar>f a b\<bar> \<le> B \<Longrightarrow> B \<le> bounded_max
   \<Longrightarrow> bounded_rv (bounded_op2 f x y) = Some (f a b)"
  by (simp add: bounded_op2_def bounded_round_small bounded_rv_Some)

lemma bounded_add_grace:
  assumes "bounded_rv x = Some a" and "bounded_rv y = Some b" and "\<bar>a + b\<bar> \<le> bounded_max + 2"
  shows "\<exists>c. bounded_rv (bounded_op2 (+) x y) = Some c \<and> (1 \<le> a + b \<longrightarrow> 1 \<le> c) \<and> (0 \<le> a \<longrightarrow> b \<le> c)"
proof -
  from assms(2) have b: "\<bar>b\<bar> \<le> bounded_max"
    by (simp add: bounded_rv_SomeD)
  show ?thesis
  proof (cases "\<bar>a + b\<bar> \<le> bounded_max")
    case True
    with assms have "bounded_rv (bounded_op2 (+) x y) = Some (a + b)"
      by (simp add: bounded_op2_def bounded_round_small bounded_rv_Some)
    then show ?thesis by simp
  next
    case False
    with assms bounded_max_ge1 have "bounded_rv (bounded_op2 (+) x y)
                       = Some (if a + b < 0 then - bounded_max else bounded_max)"
      by (simp add: bounded_op2_def bounded_round_def bounded_rv_def)
    with False b bounded_max_ge1 show ?thesis by auto
  qed
qed

lemma bounded_model: "float_model bounded_ops bounded_rv bounded_max"
  unfolding float_model_def
proof (intro conjI allI impI; (elim conjE)?)
  fix x a
  assume "bounded_rv x = Some a"
  then show "\<bar>a\<bar> \<le> bounded_max" by (simp add: bounded_rv_SomeD)
next
  fix n :: int and k :: nat
  assume "\<bar>real_of_int n\<bar> \<le> 2 ^ k" "k \<le> 100"
  then show "\<exists>c. bounded_rv (fof_int bounded_ops n) = Some c \<and> \<bar>c\<bar> \<le> 2 ^ k"
    using bounded_max_ge [of k]
    by (simp add: bounded_ops_def bounded_round_small bounded_rv_Some)
next
  fix q :: rat and k :: nat
  assume "\<bar>real_of_rat q\<bar> \<le> 2 ^ k" "k \<le> 100"
  then show "\<exists>c. bounded_rv (flit bounded_ops q) = Some c \<and> \<bar>c\<bar> \<le> 2 ^ k \<and> (1 \<le> q \<longrightarrow> 1 \<le> c)"
    using bounded_max_ge [of k] of_rat_less_eq [of 1 q, where ?'a = real]
    by (simp add: bounded_ops_def bounded_round_small bounded_rv_Some)
next
  fix x y a b and k :: nat
  assume "bounded_rv x = Some a" "bounded_rv y = Some b" "\<bar>a * b\<bar> \<le> 2 ^ k" "k \<le> 100"
  then show "\<exists>c. bounded_rv (fmul bounded_ops x y) = Some c \<and> \<bar>c\<bar> \<le> 2 ^ k"
    using bounded_op2_small [of x a y b "(*)" "2 ^ k"] bounded_max_ge [of k]
    by (simp add: bounded_ops_def)
next
  fix x y a b
  assume h: "bounded_rv x = Some a" "bounded_rv y = Some b" "\<bar>b\<bar> \<le> 1"
  from h(1) have "\<bar>a\<bar> \<le> bounded_max" by (simp add: bounded_rv_SomeD)
  moreover have "\<bar>a * b\<bar> \<le> \<bar>a\<bar>"
    using h(3) abs_mult_le [of a "\<bar>a\<bar>" b] by simp
  ultimately show "\<exists>c. bounded_rv (fmul bounded_ops x y) = Some c \<and> \<bar>c\<bar> \<le> \<bar>a\<bar>"
    using bounded_op2_small [of x a y b "(*)" "\<bar>a\<bar>"] h
    by (simp add: bounded_ops_def)
next
  fix x y a b and k :: nat
  assume "bounded_rv x = Some a" "bounded_rv y = Some b" "\<bar>a + b\<bar> \<le> 2 ^ k" "k \<le> 100"
  then show "\<exists>c. bounded_rv (fadd bounded_ops x y) = Some c \<and> \<bar>c\<bar> \<le> 2 ^ k"
    using bounded_op2_small [of x a y b "(+)" "2 ^ k"] bounded_max_ge [of k]
    by (simp add: bounded_ops_def)
next
  fix x y a b
  assume "bounded_rv x = Some a" "bounded_rv y = Some b" "\<bar>a + b\<bar> \<le> bounded_max + 2"
  then show "\<exists>c. bounded_rv (fadd bounded_ops x y) = Some c \<and> (1 \<le> a + b \<longrightarrow> 1 \<le> c) \<and> (0 \<le> a \<longrightarrow> b \<le> c)"
    using bounded_add_grace [of x a y b] by (simp add: bounded_ops_def)
next
  fix x y a b and k :: nat
  assume "bounded_rv x = Some a" "bounded_rv y = Some b" "\<bar>a - b\<bar> \<le> 2 ^ k" "k \<le> 100"
  then show "\<exists>c. bounded_rv (fsub bounded_ops x y) = Some c \<and> \<bar>c\<bar> \<le> 2 ^ k"
    using bounded_op2_small [of x a y b "(-)" "2 ^ k"] bounded_max_ge [of k]
    by (simp add: bounded_ops_def)
next
  fix x y and a b :: real
  assume h: "bounded_rv x = Some a" "bounded_rv y = Some b" "b \<noteq> 0" "\<bar>a\<bar> \<le> \<bar>b\<bar>"
  then have "\<bar>a / b\<bar> \<le> 1" by simp
  then show "\<exists>c. bounded_rv (fdiv bounded_ops x y) = Some c"
    using bounded_op2_small [of x a y b "(/)" 1] bounded_max_ge1 h
    by (simp add: bounded_ops_def)
next
  fix x a
  assume "bounded_rv x = Some a"
  then show "\<exists>s. bounded_rv (fsin bounded_ops x) = Some s \<and> \<bar>s\<bar> \<le> 1"
    using bounded_rv_Some [of "sin a"] bounded_max_ge1 abs_sin_le_one [of a]
    by (simp add: bounded_ops_def)
next
  fix x a
  assume "bounded_rv x = Some a"
  then show "\<exists>s. bounded_rv (fcos bounded_ops x) = Some s \<and> \<bar>s\<bar> \<le> 1"
    using bounded_rv_Some [of "cos a"] bounded_max_ge1 abs_cos_le_one [of a]
    by (simp add: bounded_ops_def)
next
  fix x a
  assume "bounded_rv x = Some a"
  then show "bounded_rv (ffabs bounded_ops x) = Some \<bar>a\<bar>"
    using bounded_rv_Some [of "\<bar>a\<bar>"] bounded_rv_SomeD [of x a]
    by (simp add: bounded_ops_def)
qed

lemma bounded_overflow: "bounded_rv (fmul bounded_ops (Some bounded_max) (Some 4)) = None"
proof -
  have "\<not> \<bar>bounded_max * 4\<bar> \<le> bounded_max + 2"
    using bounded_max_ge [of 1] by simp
  moreover have "bounded_rv (Some 4) = Some 4"
    using bounded_max_ge [of 2] by (simp add: bounded_rv_def)
  ultimately show ?thesis
    using bounded_max_ge1
    by (simp add: bounded_ops_def bounded_op2_def bounded_rv_def bounded_round_def)
qed

text \<open>
  Claim C3: for every finite input value and every work item, the value after the 1000
  passes of the kernel's loop is finite (neither an infinity nor a NaN), and after a
  work item on a buffer of finite values every element of the buffer is finite. This
  holds in every arithmetic that meets \<open>float_model\<close>.
\<close>

theorem kernel_output_finite:
  assumes "float_model ops rv fmax"
  shows "(rv v \<noteq> None \<longrightarrow> rv (kernel_loop ops (to_int32 gid) 0 1000 v) \<noteq> None) \<and>
         (load_kernel ops data cnt gid = Some data' \<and> (\<forall>x \<in> set data. rv x \<noteq> None) \<longrightarrow>
            (\<forall>x \<in> set data'. rv x \<noteq> None))"
proof (intro conjI impI)
  show f: "rv v \<noteq> None \<Longrightarrow> rv (kernel_loop ops (to_int32 gid) 0 1000 v) \<noteq> None" for v
    using kernel_loop_finite [OF assms to_int32_range, of 0 1000 v gid] by simp
  assume a: "load_kernel ops data cnt gid = Some data' \<and> (\<forall>x \<in> set data. rv x \<noteq> None)"
  show "\<forall>x \<in> set data'. rv x \<noteq> None"
  proof (cases "to_int32 gid < cnt")
    case False
    with a show ?thesis by (simp add: load_kernel_inactive)
  next
    case True
    with a have d: "data' = data[nat (to_int32 gid) := kernel_loop ops (to_int32 gid) 0 1000 (data ! nat (to_int32 gid))]"
      and r: "nat (to_int32 gid) < length data"
      by (auto simp: load_kernel_def Let_def split: if_splits)
    from r a have "rv (data ! nat (to_int32 gid)) \<noteq> None" by simp
    from f [OF this] a show ?thesis
      unfolding d by (auto dest!: set_update_subset_insert [THEN subsetD])
  qed
qed

theorem kernel_output_finite_witness:
  "float_model bounded_ops bounded_rv bounded_max \<and>
   bounded_rv (Some 7) \<noteq> None \<and>
   bounded_rv (kernel_loop bounded_ops (to_int32 3) 0 1000 (Some 7)) \<noteq> None \<and>
   load_kernel bounded_ops [Some 1, Some 2] 2 0
     = Some [kernel_loop bounded_ops 0 0 1000 (Some 1), Some 2] \<and>
   bounded_rv (Some 1) \<noteq> None \<and> bounded_rv (Some 2) \<noteq> None \<and>
   bounded_rv (kernel_loop bounded_ops 0 0 1000 (Some 1)) \<noteq> None \<and>
   bounded_rv (fmul bounded_ops (Some bounded_max) (Some 4)) = None"
proof -
  have s: "bounded_rv (Some 7) \<noteq> None" "bounded_rv (Some 1) \<noteq> None" "bounded_rv (Some 2) \<noteq> None"
    using bounded_max_ge [of 3] bounded_max_ge [of 0] bounded_max_ge [of 1]
    by (simp_all add: bounded_rv_def)
  have l: "load_kernel bounded_ops [Some 1, Some 2] 2 0
             = Some [kernel_loop bounded_ops 0 0 1000 (Some 1), Some 2]"
    by (simp add: load_kernel_def to_int32_def Let_def)
  note k = kernel_output_finite [OF bounded_model]
  have a: "bounded_rv (kernel_loop bounded_ops (to_int32 3) 0 1000 (Some 7)) \<noteq> None"
    using k [THEN conjunct1, of "Some 7" 3] s(1) by blast
  have i: "\<forall>x \<in> set [Some 1, Some 2]. bounded_rv x \<noteq> None"
    using s(2,3) by simp
  have b: "\<forall>x \<in> set [kernel_loop bounded_ops 0 0 1000 (Some 1), Some 2]. bounded_rv x \<noteq> None"
    using k [THEN conjunct2, of "[Some 1, Some 2]" 2 0] l i by blast
  from b have c: "bounded_rv (kernel_loop bounded_ops 0 0 1000 (Some 1)) \<noteq> None"
    by simp
  from bounded_model s a l c bounded_overflow show ?thesis
    by blast
qed

subsection \<open>The workload buffer\<close>

lemma fill_host_data_length: "length (fill_host_data ops i n xs) = length xs"
proof (induction ops i n xs rule: fill_host_data.induct)
  case (1 ops i n xs)
  then show ?case by (subst fill_host_data.simps) simp
qed

lemma fill_host_data_nth:
  "n \<le> length xs \<Longrightarrow>
   fill_host_data ops i n xs ! j =
     (if i \<le> j \<and> j < n then fadd ops (fof_int ops (int (j mod 100))) (flit ops (1 / 10))
      else xs ! j)"
proof (induction ops i n xs rule: fill_host_data.induct)
  case (1 ops i n xs)
  show ?case
  proof (cases "i < n")
    case True
    with 1 show ?thesis
      by (subst fill_host_data.simps) (auto simp: nth_list_update)
  next
    case False
    then show ?thesis by (subst fill_host_data.simps) auto
  qed
qed

text \<open>
  Claim C7. The host array that seeds the workload buffer has \<open>1024 * 1024 * 8\<close>
  elements, and element \<open>i\<close> is the \<open>float\<close> sum of \<open>(float)(i % 100)\<close> and \<open>0.1f\<close>,
  whatever the arithmetic: the content is a function of the index alone.
\<close>

theorem host_data_seed:
  "length (host_data ops) = 1024 * 1024 * 8 \<and>
   (\<forall>i < 1024 * 1024 * 8.
      host_data ops ! i = fadd ops (fof_int ops (int (i mod 100))) (flit ops (1 / 10)))"
  by (simp add: host_data_def fill_host_data_length fill_host_data_nth dataSizeElements_def)

theorem host_data_seed_witness:
  "(205::nat) < 1024 * 1024 * 8 \<and> host_data real_ops ! 205 = 5 + 1 / 10"
  using host_data_seed [of real_ops] by (simp add: real_ops_def of_rat_divide)

subsection \<open>Evaluation on the concrete runtimes\<close>

lemmas mock_defs = mock_def mock_build_failure_def mock_sync_failure_def mock_legacy_queue_def
  mock_two_platforms_def mock_list_failure_def mock_count_failure_def mock_other_vendor_def

lemmas eval_defs = main_def check_cl_error_def CL_SUCCESS_def CL_DEVICE_NOT_FOUND_def
  to_string_def string_of_nat.simps threw_def

lemmas run_defs = run_load_on_device_def run_kernel_def create_queue_def

subsection \<open>\<open>main\<close>: how it ends before any thread starts\<close>

lemma main_no_platform:
  assumes "fst (clGetPlatformIDs_count be) \<noteq> CL_SUCCESS \<or> snd (clGetPlatformIDs_count be) = 0"
  shows "main be fuel lag = \<lparr>printed = [Stderr ''Failed to find any OpenCL platforms or no platforms reported.''],
               threads = [], runs = [], status = Exit 1\<rparr>"
  using assms by (auto simp: main_def split: prod.splits)

lemma main_no_device:
  assumes "clGetPlatformIDs_count be = (CL_SUCCESS, n)" and "0 < n"
      and "clGetPlatformIDs_list be = (CL_SUCCESS, written)"
      and "scan_platforms be (take n (written @ replicate n 0)) [] = (es, Inr [])"
  shows "main be fuel lag = \<lparr>printed = es @ [Stderr ''No Intel GPUs found via OpenCL.''],
               threads = [], runs = [], status = Exit 1\<rparr>"
  using assms by (simp add: main_def check_cl_error_def)

lemma main_scan_throws:
  assumes "clGetPlatformIDs_count be = (CL_SUCCESS, n)" and "0 < n"
      and "clGetPlatformIDs_list be = (CL_SUCCESS, written)"
      and "scan_platforms be (take n (written @ replicate n 0)) [] = (es, Inl e)"
  shows "main be fuel lag = \<lparr>printed = es @ [Stderr (''OpenCL Runtime Error: '' @ e)],
               threads = [], runs = [], status = Exit 1\<rparr>"
  using assms by (simp add: main_def check_cl_error_def)

lemma main_platform_list_throws:
  assumes "clGetPlatformIDs_count be = (CL_SUCCESS, n)" and "0 < n"
      and "clGetPlatformIDs_list be = (err, written)" and "err \<noteq> CL_SUCCESS"
  shows "main be fuel lag = \<lparr>printed = [Stderr (''OpenCL Runtime Error: clGetPlatformIDs failed with error code '' @ to_string err)],
               threads = [], runs = [], status = Exit 1\<rparr>"
  using assms by (simp add: main_def check_cl_error_def)

lemma main_devices:
  assumes "clGetPlatformIDs_count be = (CL_SUCCESS, n)" and "0 < n"
      and "clGetPlatformIDs_list be = (CL_SUCCESS, written)"
      and "scan_platforms be (take n (written @ replicate n 0)) [] = (es, Inr gpus)"
      and "gpus \<noteq> []"
  shows "threads (main be fuel lag) = map fst (start_threads be fuel lag gpus 0 None)"
    and "runs (main be fuel lag) = map snd (start_threads be fuel lag gpus 0 None)"
    and "status (main be fuel lag) =
           (if list_ex threw (runs (main be fuel lag)) then Terminate
            else if list_all (\<lambda>r. snd r = Returned) (runs (main be fuel lag)) then Exit 0
            else Blocked)"
  using assms by (simp_all add: main_def check_cl_error_def Let_def)

text \<open>
  Claim C4. When the scan of the platforms ends with an empty list of devices, \<open>main\<close>
  prints \<open>No Intel GPUs found via OpenCL.\<close> on the error stream after what the scan
  printed, returns 1, and has started no thread. The same holds, with its own message,
  when the runtime reports no platform at all.
\<close>

theorem no_device_exits_with_1:
  "(clGetPlatformIDs_count be = (CL_SUCCESS, n) \<and> 0 < n \<and>
    clGetPlatformIDs_list be = (CL_SUCCESS, written) \<and>
    scan_platforms be (take n (written @ replicate n 0)) [] = (es, Inr []) \<longrightarrow>
      main be fuel lag = \<lparr>printed = es @ [Stderr ''No Intel GPUs found via OpenCL.''],
                       threads = [], runs = [], status = Exit 1\<rparr>) \<and>
   (fst (clGetPlatformIDs_count be) \<noteq> CL_SUCCESS \<or> snd (clGetPlatformIDs_count be) = 0 \<longrightarrow>
      main be fuel lag =
        \<lparr>printed = [Stderr ''Failed to find any OpenCL platforms or no platforms reported.''],
         threads = [], runs = [], status = Exit 1\<rparr>)"
  using main_no_device [of be n written es fuel lag] main_no_platform [of be fuel lag] by blast

theorem no_device_exits_with_1_witness:
  "clGetPlatformIDs_count mock_other_vendor = (CL_SUCCESS, 1) \<and>
   clGetPlatformIDs_list mock_other_vendor = (CL_SUCCESS, [1]) \<and>
   scan_platforms mock_other_vendor (take 1 ([1] @ replicate 1 0)) [] = ([], Inr []) \<and>
   main mock_other_vendor 3 (\<lambda>i. 0) = \<lparr>printed = [Stderr ''No Intel GPUs found via OpenCL.''],
                       threads = [], runs = [], status = Exit 1\<rparr> \<and>
   snd (clGetPlatformIDs_count (mock\<lparr>clGetPlatformIDs_count := (0, 0)\<rparr>)) = 0 \<and>
   main (mock\<lparr>clGetPlatformIDs_count := (0, 0)\<rparr>) 3 (\<lambda>i. 0) =
        \<lparr>printed = [Stderr ''Failed to find any OpenCL platforms or no platforms reported.''],
         threads = [], runs = [], status = Exit 1\<rparr>"
proof -
  have h: "clGetPlatformIDs_count mock_other_vendor = (CL_SUCCESS, 1)"
      "clGetPlatformIDs_list mock_other_vendor = (CL_SUCCESS, [1])"
      "scan_platforms mock_other_vendor (take 1 ([1] @ replicate 1 0)) [] = ([], Inr [])"
    by (simp_all add: mock_defs CL_SUCCESS_def)
  have g: "snd (clGetPlatformIDs_count (mock\<lparr>clGetPlatformIDs_count := (0, 0)\<rparr>)) = 0"
    by simp
  show ?thesis
    using h g no_device_exits_with_1 [of mock_other_vendor 1 "[1]" "[]" 3 "\<lambda>i. 0"]
      no_device_exits_with_1 [of "mock\<lparr>clGetPlatformIDs_count := (0, 0)\<rparr>" _ _ _ 3 "\<lambda>i. 0"]
    by simp
qed

subsection \<open>The scan of the platforms\<close>

lemma scan_count_failure:
  assumes "find_str (clGetPlatformInfo_vendor be p) ''Intel'' \<or> find_str (clGetPlatformInfo_vendor be p) ''intel''"
      and "clGetDeviceIDs_count be p = (err, n)" and "err \<noteq> CL_SUCCESS"
  shows "scan_platforms be (p # rest) gpus =
     (if err = CL_DEVICE_NOT_FOUND then scan_platforms be rest gpus
      else (Stderr (''Warning: clGetDeviceIDs (count) for platform '' @ clGetPlatformInfo_vendor be p
                    @ '' returned '' @ to_string err) # fst (scan_platforms be rest gpus),
            snd (scan_platforms be rest gpus)))"
  using assms by (auto simp: Let_def split: prod.splits)

lemma scan_platforms_step:
  assumes "\<not> list_query_fails be p"
  shows "\<exists>ws gpus'. scan_platforms be (p # rest) gpus =
      (ws @ fst (scan_platforms be rest gpus'), snd (scan_platforms be rest gpus'))"
proof -
  obtain err n where c: "clGetDeviceIDs_count be p = (err, n)" by (cases "clGetDeviceIDs_count be p")
  obtain err2 ds where l: "clGetDeviceIDs_list be p = (err2, ds)" by (cases "clGetDeviceIDs_list be p")
  let ?m = "find_str (clGetPlatformInfo_vendor be p) ''Intel'' \<or> find_str (clGetPlatformInfo_vendor be p) ''intel''"
  consider (other) "\<not> ?m" | (nf) "?m" "err = CL_DEVICE_NOT_FOUND"
    | (bad) "?m" "err \<noteq> CL_DEVICE_NOT_FOUND" "err \<noteq> CL_SUCCESS"
    | (zero) "?m" "err \<noteq> CL_DEVICE_NOT_FOUND" "err = CL_SUCCESS" "n = 0"
    | (some) "?m" "err \<noteq> CL_DEVICE_NOT_FOUND" "err = CL_SUCCESS" "0 < n" "err2 = CL_SUCCESS"
    using assms c l by (auto simp: list_query_fails_def)
  then show ?thesis
  proof cases
    case other
    then have "scan_platforms be (p # rest) gpus = ([] @ fst (scan_platforms be rest gpus), snd (scan_platforms be rest gpus))"
      by simp
    then show ?thesis by blast
  next
    case nf
    then have "scan_platforms be (p # rest) gpus = ([] @ fst (scan_platforms be rest gpus), snd (scan_platforms be rest gpus))"
      using c by simp
    then show ?thesis by blast
  next
    case bad
    then have "scan_platforms be (p # rest) gpus =
       ([Stderr (''Warning: clGetDeviceIDs (count) for platform '' @ clGetPlatformInfo_vendor be p
                    @ '' returned '' @ to_string err)] @ fst (scan_platforms be rest gpus), snd (scan_platforms be rest gpus))"
      using c by (simp add: case_prod_beta)
    then show ?thesis by blast
  next
    case zero
    then have "scan_platforms be (p # rest) gpus = ([] @ fst (scan_platforms be rest gpus), snd (scan_platforms be rest gpus))"
      using c by simp
    then show ?thesis by blast
  next
    case some
    then have "scan_platforms be (p # rest) gpus =
       ([] @ fst (scan_platforms be rest (gpus @ map (Pair p) (take n (ds @ replicate n 0)))),
        snd (scan_platforms be rest (gpus @ map (Pair p) (take n (ds @ replicate n 0)))))"
      using c l by (simp add: check_cl_error_def)
    then show ?thesis by blast
  qed
qed

lemma scan_platforms_fatal_iff:
  "(\<exists>es e. scan_platforms be ps gpus = (es, Inl e)) \<longleftrightarrow> (\<exists>p\<in>set ps. list_query_fails be p)"
proof (induction ps arbitrary: gpus)
  case Nil
  then show ?case by simp
next
  case (Cons a ps)
  show ?case
  proof (cases "list_query_fails be a")
    case True
    then have "\<exists>es e. scan_platforms be (a # ps) gpus = (es, Inl e)"
      by (auto simp: list_query_fails_def Let_def check_cl_error_def CL_DEVICE_NOT_FOUND_def CL_SUCCESS_def split: prod.splits)
    with True show ?thesis by simp
  next
    case False
    from scan_platforms_step[OF False, of ps gpus] obtain ws gpus' where
      s: "scan_platforms be (a # ps) gpus = (ws @ fst (scan_platforms be ps gpus'), snd (scan_platforms be ps gpus'))"
      by blast
    have "(\<exists>es e. scan_platforms be (a # ps) gpus = (es, Inl e)) \<longleftrightarrow> (\<exists>es e. scan_platforms be ps gpus' = (es, Inl e))"
      unfolding s by (cases "scan_platforms be ps gpus'") auto
    with Cons.IH[of gpus'] False show ?thesis by simp
  qed
qed

text \<open>
  Claim C9, as the claim states it, fails: of two Intel platforms with one GPU each, the
  query for the list of the first platform's devices fails; the second platform is not
  scanned and the process exits with status 1.
\<close>

theorem device_list_failure_is_fatal:
  "fst (clGetDeviceIDs_list mock_list_failure 1) \<noteq> CL_SUCCESS \<and>
   fst (clGetDeviceIDs_list mock_list_failure 2) = CL_SUCCESS \<and>
   main mock_list_failure 0 (\<lambda>i. 0) =
     \<lparr>printed = [Stderr ''OpenCL Runtime Error: clGetDeviceIDs (list) failed with error code -5''],
      threads = [], runs = [], status = Exit 1\<rparr>"
  by (simp add: mock_defs eval_defs)

text \<open>
  Claim C9, amended. A failure of the query for the number of a platform's devices is
  never fatal: that platform is skipped and the scan goes on with the next one, with a
  warning on the error stream unless the error is \<open>CL_DEVICE_NOT_FOUND\<close>. The scan
  fails exactly when the query for the list of some platform's devices fails, and then
  the process exits with status 1 and starts no thread, as it does when a query for the
  platforms fails.
\<close>

theorem device_query_failures:
  "((find_str (clGetPlatformInfo_vendor be p) ''Intel'' \<or> find_str (clGetPlatformInfo_vendor be p) ''intel'') \<and>
    clGetDeviceIDs_count be p = (err, n) \<and> err \<noteq> CL_SUCCESS \<longrightarrow>
      scan_platforms be (p # rest) gpus =
        (if err = CL_DEVICE_NOT_FOUND then scan_platforms be rest gpus
         else (Stderr (''Warning: clGetDeviceIDs (count) for platform '' @ clGetPlatformInfo_vendor be p
                       @ '' returned '' @ to_string err) # fst (scan_platforms be rest gpus),
               snd (scan_platforms be rest gpus)))) \<and>
   ((\<exists>es e. scan_platforms be ps gpus = (es, Inl e)) \<longleftrightarrow> (\<exists>p\<in>set ps. list_query_fails be p)) \<and>
   (clGetPlatformIDs_count be = (CL_SUCCESS, k) \<and> 0 < k \<and>
    clGetPlatformIDs_list be = (CL_SUCCESS, written) \<and>
    (\<exists>p\<in>set (take k (written @ replicate k 0)). list_query_fails be p) \<longrightarrow>
      status (main be fuel lag) = Exit 1 \<and> threads (main be fuel lag) = [] \<and> runs (main be fuel lag) = []) \<and>
   (fst (clGetPlatformIDs_count be) \<noteq> CL_SUCCESS \<or> fst (clGetPlatformIDs_list be) \<noteq> CL_SUCCESS \<longrightarrow>
      status (main be fuel lag) = Exit 1 \<and> threads (main be fuel lag) = [] \<and> runs (main be fuel lag) = [])"
proof (intro conjI impI)
  assume "(find_str (clGetPlatformInfo_vendor be p) ''Intel'' \<or> find_str (clGetPlatformInfo_vendor be p) ''intel'') \<and>
    clGetDeviceIDs_count be p = (err, n) \<and> err \<noteq> CL_SUCCESS"
  then show "scan_platforms be (p # rest) gpus =
        (if err = CL_DEVICE_NOT_FOUND then scan_platforms be rest gpus
         else (Stderr (''Warning: clGetDeviceIDs (count) for platform '' @ clGetPlatformInfo_vendor be p
                       @ '' returned '' @ to_string err) # fst (scan_platforms be rest gpus),
               snd (scan_platforms be rest gpus)))"
    using scan_count_failure [of be p err n rest gpus] by blast
next
  show "(\<exists>es e. scan_platforms be ps gpus = (es, Inl e)) \<longleftrightarrow> (\<exists>p\<in>set ps. list_query_fails be p)"
    by (rule scan_platforms_fatal_iff)
next
  assume a: "clGetPlatformIDs_count be = (CL_SUCCESS, k) \<and> 0 < k \<and>
    clGetPlatformIDs_list be = (CL_SUCCESS, written) \<and>
    (\<exists>p\<in>set (take k (written @ replicate k 0)). list_query_fails be p)"
  then obtain es e where "scan_platforms be (take k (written @ replicate k 0)) [] = (es, Inl e)"
    using scan_platforms_fatal_iff [of be "take k (written @ replicate k 0)" "[]"] by blast
  with a have m: "main be fuel lag = \<lparr>printed = es @ [Stderr (''OpenCL Runtime Error: '' @ e)],
               threads = [], runs = [], status = Exit 1\<rparr>"
    using main_scan_throws [of be k written es e fuel lag] by blast
  show "status (main be fuel lag) = Exit 1" "threads (main be fuel lag) = []" "runs (main be fuel lag) = []"
    by (simp_all add: m)
next
  assume a: "fst (clGetPlatformIDs_count be) \<noteq> CL_SUCCESS \<or> fst (clGetPlatformIDs_list be) \<noteq> CL_SUCCESS"
  have "\<exists>pr. main be fuel lag = \<lparr>printed = pr, threads = [], runs = [], status = Exit 1\<rparr>"
  proof (cases "fst (clGetPlatformIDs_count be) \<noteq> CL_SUCCESS \<or> snd (clGetPlatformIDs_count be) = 0")
    case True
    then show ?thesis using main_no_platform [of be fuel lag] by blast
  next
    case False
    with a have "fst (clGetPlatformIDs_list be) \<noteq> CL_SUCCESS" by blast
    with False show ?thesis
      using main_platform_list_throws [of be "snd (clGetPlatformIDs_count be)"
          "fst (clGetPlatformIDs_list be)" "snd (clGetPlatformIDs_list be)" fuel lag]
      by (cases "clGetPlatformIDs_count be"; cases "clGetPlatformIDs_list be") auto
  qed
  then obtain pr where m: "main be fuel lag = \<lparr>printed = pr, threads = [], runs = [], status = Exit 1\<rparr>" ..
  show "status (main be fuel lag) = Exit 1" "threads (main be fuel lag) = []" "runs (main be fuel lag) = []"
    by (simp_all add: m)
qed

theorem device_query_failures_witness:
  "clGetDeviceIDs_count mock_count_failure 1 = (- 5, 0) \<and>
   scan_platforms mock_count_failure [1, 2] [] =
     ([Stderr ''Warning: clGetDeviceIDs (count) for platform Intel(R) Corporation returned -5''],
      Inr [(2, 20)]) \<and>
   list_query_fails mock_list_failure 1 \<and>
   (\<exists>es e. scan_platforms mock_list_failure [1, 2] [] = (es, Inl e)) \<and>
   status (main mock_list_failure 4 (\<lambda>i. 0)) = Exit 1 \<and> threads (main mock_list_failure 4 (\<lambda>i. 0)) = [] \<and>
   fst (clGetPlatformIDs_list (mock\<lparr>clGetPlatformIDs_list := (- 5, [])\<rparr>)) \<noteq> CL_SUCCESS \<and>
   status (main (mock\<lparr>clGetPlatformIDs_list := (- 5, [])\<rparr>) 4 (\<lambda>i. 0)) = Exit 1"
proof -
  have v: "find_str (clGetPlatformInfo_vendor mock_count_failure 1) ''Intel''"
    and c: "clGetDeviceIDs_count mock_count_failure 1 = (- 5, 0)" "(- 5 :: int) \<noteq> CL_SUCCESS"
      "(- 5 :: int) \<noteq> CL_DEVICE_NOT_FOUND"
    and r: "scan_platforms mock_count_failure [2] [] = ([], Inr [(2, 20)])"
    by (simp_all add: mock_defs CL_SUCCESS_def CL_DEVICE_NOT_FOUND_def check_cl_error_def)
  have s: "scan_platforms mock_count_failure [1, 2] [] =
     ([Stderr ''Warning: clGetDeviceIDs (count) for platform Intel(R) Corporation returned -5''],
      Inr [(2, 20)])"
    using device_query_failures [where be = mock_count_failure and p = 1 and err = "- 5" and n = 0
        and rest = "[2]" and gpus = "[]"] v c r
    by (simp add: mock_defs to_string_def string_of_nat.simps)
  have f: "list_query_fails mock_list_failure 1"
    by (simp add: list_query_fails_def mock_defs CL_SUCCESS_def)
  have q: "clGetPlatformIDs_count mock_list_failure = (CL_SUCCESS, 2)"
      "clGetPlatformIDs_list mock_list_failure = (CL_SUCCESS, [1, 2])"
    by (simp_all add: mock_defs CL_SUCCESS_def)
  have t: "\<exists>es e. scan_platforms mock_list_failure [1, 2] [] = (es, Inl e)"
    using device_query_failures [where be = mock_list_failure and ps = "[1, 2]" and gpus = "[]"] f
    by simp
  have m: "status (main mock_list_failure 4 (\<lambda>i. 0)) = Exit 1 \<and> threads (main mock_list_failure 4 (\<lambda>i. 0)) = []"
    using device_query_failures [where be = mock_list_failure and k = 2 and written = "[1, 2]"
        and fuel = 4 and lag = "\<lambda>i. 0"] f q
    by simp
  have g: "fst (clGetPlatformIDs_list (mock\<lparr>clGetPlatformIDs_list := (- 5, [])\<rparr>)) \<noteq> CL_SUCCESS"
    by (simp add: CL_SUCCESS_def)
  have p: "status (main (mock\<lparr>clGetPlatformIDs_list := (- 5, [])\<rparr>) 4 (\<lambda>i. 0)) = Exit 1"
    using device_query_failures [where be = "mock\<lparr>clGetPlatformIDs_list := (- 5, [])\<rparr>" and fuel = 4 and lag = "\<lambda>i. 0"] g
    by blast
  show ?thesis using c(1) s f t m g p by blast
qed

subsection \<open>The steady-state loop\<close>

lemma steady_loop_running:
  assumes "\<forall>j<fuel. clEnqueueNDRangeKernel be q kern g (n + j) = CL_SUCCESS \<and> clFinish be q (n + j) = CL_SUCCESS"
  shows "steady_loop be idx q kern g n fuel =
     (concat (replicate fuel [EnqueueNDRangeKernel q kern g CL_SUCCESS, Finish q CL_SUCCESS]), False)"
  using assms
proof (induction fuel arbitrary: n)
  case 0 then show ?case by simp
next
  case (Suc fuel)
  from Suc.prems have now: "clEnqueueNDRangeKernel be q kern g n = CL_SUCCESS" "clFinish be q n = CL_SUCCESS"
    by (metis add.right_neutral zero_less_Suc)+
  have "\<forall>j<fuel. clEnqueueNDRangeKernel be q kern g (Suc n + j) = CL_SUCCESS \<and> clFinish be q (Suc n + j) = CL_SUCCESS"
    using Suc.prems by (metis Suc_less_eq add_Suc_shift)
  from Suc.IH[OF this] now show ?case by simp
qed

lemma steady_loop_first_failure:
  assumes "\<forall>j<k. clEnqueueNDRangeKernel be q kern g (n + j) = CL_SUCCESS \<and> clFinish be q (n + j) = CL_SUCCESS"
      and "clEnqueueNDRangeKernel be q kern g (n + k) \<noteq> CL_SUCCESS \<or> clFinish be q (n + k) \<noteq> CL_SUCCESS"
      and "k < fuel"
  shows "steady_loop be idx q kern g n fuel =
     (concat (replicate k [EnqueueNDRangeKernel q kern g CL_SUCCESS, Finish q CL_SUCCESS])
      @ (if clEnqueueNDRangeKernel be q kern g (n + k) \<noteq> CL_SUCCESS
         then [EnqueueNDRangeKernel q kern g (clEnqueueNDRangeKernel be q kern g (n + k)),
               Stderr (''Device '' @ to_string idx @ '': clEnqueueNDRangeKernel failed: ''
                        @ to_string (clEnqueueNDRangeKernel be q kern g (n + k)))]
         else [EnqueueNDRangeKernel q kern g CL_SUCCESS, Finish q (clFinish be q (n + k)),
               Stderr (''Device '' @ to_string idx @ '': clFinish failed: ''
                        @ to_string (clFinish be q (n + k)))]), True)"
  using assms
proof (induction k arbitrary: n fuel)
  case 0
  then obtain f where "fuel = Suc f" by (cases fuel) auto
  with 0 show ?case by (auto simp: Let_def)
next
  case (Suc k)
  then obtain f where f: "fuel = Suc f" "k < f" by (cases fuel) auto
  from Suc.prems have now: "clEnqueueNDRangeKernel be q kern g n = CL_SUCCESS" "clFinish be q n = CL_SUCCESS"
    by (metis add.right_neutral zero_less_Suc)+
  have a: "\<forall>j<k. clEnqueueNDRangeKernel be q kern g (Suc n + j) = CL_SUCCESS \<and> clFinish be q (Suc n + j) = CL_SUCCESS"
    using Suc.prems(1) by (metis Suc_less_eq add_Suc_shift)
  have b: "clEnqueueNDRangeKernel be q kern g (Suc n + k) \<noteq> CL_SUCCESS \<or> clFinish be q (Suc n + k) \<noteq> CL_SUCCESS"
    using Suc.prems(2) by simp
  from Suc.IH[OF a b f(2)] now f show ?case by simp
qed

lemma steady_loop_cong:
  assumes "\<And>n. clEnqueueNDRangeKernel be' q kern g n = clEnqueueNDRangeKernel be q kern g n"
      and "\<And>n. clFinish be' q n = clFinish be q n"
  shows "steady_loop be' idx q kern g n fuel = steady_loop be idx q kern g n fuel"
  by (induction fuel arbitrary: n) (simp_all add: assms Let_def)

subsection \<open>\<open>run_load_on_device\<close> once its set-up has succeeded\<close>

lemma count_arg_value: "to_int32 dataSizeElements = 8388608"
  by (simp add: to_int32_def dataSizeElements_def)

lemma buffer_bytes: "4 * dataSizeElements = 33554432"
  by (simp add: dataSizeElements_def)

lemma run_kernel_loop:
  assumes "clCreateKernel be prog = (CL_SUCCESS, kern)"
      and "clCreateBuffer be ctx (4 * dataSizeElements) = (CL_SUCCESS, buf)"
      and "clSetKernelArg be kern 0 = CL_SUCCESS" and "clSetKernelArg be kern 1 = CL_SUCCESS"
      and "steady_loop be i q kern dataSizeElements 0 fuel = (es, left)"
  shows "run_kernel be i ctx q prog fuel =
     ([CreateKernel prog CL_SUCCESS kern, CreateBuffer ctx 33554432 CL_SUCCESS buf,
       SetKernelArg_mem kern 0 buf CL_SUCCESS, SetKernelArg_int kern 1 8388608 CL_SUCCESS,
       Stdout (''Device '' @ to_string i @ '': Entering continuous kernel execution loop...'')]
      @ es
      @ (if left
         then [Stdout (''Device '' @ to_string i @ '': Exited kernel execution loop.''),
               ReleaseMemObject buf, ReleaseKernel kern, ReleaseProgram prog,
               ReleaseCommandQueue q, ReleaseContext ctx,
               Stdout (''Finished load and cleaned up for Device '' @ to_string i)]
         else []),
      if left then Returned else Running)"
  using assms
  by (simp add: run_kernel_def check_cl_error_def count_arg_value buffer_bytes)

lemma run_load_on_device_loop:
  assumes "clCreateContext be p d = (CL_SUCCESS, ctx)"
      and "create_queue be ctx d i = (qs, CL_SUCCESS, q)"
      and "clCreateProgramWithSource be ctx = (CL_SUCCESS, prog)"
      and "clBuildProgram be prog d = CL_SUCCESS"
      and "run_kernel be i ctx q prog fuel = (ks, res)"
  shows "run_load_on_device be p d i fuel =
     ([Stdout (''Starting load on Device '' @ to_string i @ '': '' @ clGetDeviceInfo_name be d),
       CreateContext p d CL_SUCCESS ctx] @ qs
      @ [CreateProgramWithSource ctx CL_SUCCESS prog, BuildProgram prog d CL_SUCCESS] @ ks, res)"
  using assms
  by (simp add: run_load_on_device_def check_cl_error_def)

lemma run_kernel_cong:
  assumes "clCreateKernel be' = clCreateKernel be" and "clCreateBuffer be' = clCreateBuffer be"
      and "clSetKernelArg be' = clSetKernelArg be"
      and "clEnqueueNDRangeKernel be' q = clEnqueueNDRangeKernel be q" and "clFinish be' q = clFinish be q"
  shows "run_kernel be' i ctx q prog fuel = run_kernel be i ctx q prog fuel"
proof -
  have l: "steady_loop be' i q kern g n fuel = steady_loop be i q kern g n fuel" for kern g n
    by (rule steady_loop_cong) (simp_all add: assms)
  show ?thesis unfolding run_kernel_def assms(1-3) l ..
qed

lemma run_load_on_device_other_queue:
  assumes "clCreateContext be p d = (e, ctx)" and "create_queue be ctx d i = (qs, e2, q)"
      and "f q = clEnqueueNDRangeKernel be q" and "h q = clFinish be q"
  shows "run_load_on_device (be\<lparr>clEnqueueNDRangeKernel := f, clFinish := h\<rparr>) p d i fuel
         = run_load_on_device be p d i fuel"
proof -
  let ?be = "be\<lparr>clEnqueueNDRangeKernel := f, clFinish := h\<rparr>"
  have k: "run_kernel ?be i ctx q prog fuel = run_kernel be i ctx q prog fuel" for prog
    by (rule run_kernel_cong) (simp_all add: assms)
  have cq: "clCreateCommandQueueWithProperties ?be = clCreateCommandQueueWithProperties be"
    "clCreateCommandQueue ?be = clCreateCommandQueue be"
    by simp_all
  have c: "create_queue ?be ctx d i = create_queue be ctx d i"
    unfolding create_queue_def cq ..
  have o: "clGetDeviceInfo_name ?be = clGetDeviceInfo_name be" "clCreateContext ?be = clCreateContext be"
    "clCreateProgramWithSource ?be = clCreateProgramWithSource be" "clBuildProgram ?be = clBuildProgram be"
    "clGetProgramBuildInfo_log ?be = clGetProgramBuildInfo_log be"
    by simp_all
  show ?thesis
    unfolding run_load_on_device_def o assms(1) prod.case Let_def c assms(2) k ..
qed

lemma main_terminate:
  "status (main be fuel lag) = Terminate \<Longrightarrow> list_ex threw (runs (main be fuel lag))"
  by (auto simp: main_def Let_def split: prod.splits sum.splits if_splits)

text \<open>
  Claim C5. Take a runner whose set-up succeeds, and let pass \<open>k\<close> of its loop be the
  first in which the dispatch or the wait for completion fails. Given fuel for more than
  \<open>k\<close> passes, the runner makes \<open>k\<close> full passes, then the failing one (the dispatch
  alone, or the dispatch and the wait), prints the error, and leaves the loop: it calls
  the runtime no more but to release its objects, and returns. The process is terminated
  only by a runner that throws, and this one does not. Whatever the runtime answers on
  one queue, a runner on another queue runs as before. In the scenario of the claim
  (\<open>k = 0\<close>, the wait fails) the loop is left after exactly one dispatch and one wait.
\<close>

theorem dispatch_failure_ends_one_loop:
  assumes "clCreateContext be p d = (CL_SUCCESS, ctx)"
      and "create_queue be ctx d i = (qs, CL_SUCCESS, q)"
      and "clCreateProgramWithSource be ctx = (CL_SUCCESS, prog)"
      and "clBuildProgram be prog d = CL_SUCCESS"
      and "clCreateKernel be prog = (CL_SUCCESS, kern)"
      and "clCreateBuffer be ctx (4 * dataSizeElements) = (CL_SUCCESS, buf)"
      and "clSetKernelArg be kern 0 = CL_SUCCESS" and "clSetKernelArg be kern 1 = CL_SUCCESS"
      and "\<forall>j<k. clEnqueueNDRangeKernel be q kern dataSizeElements j = CL_SUCCESS \<and>
                 clFinish be q j = CL_SUCCESS"
      and "clEnqueueNDRangeKernel be q kern dataSizeElements k \<noteq> CL_SUCCESS \<or>
           clFinish be q k \<noteq> CL_SUCCESS"
      and "k < fuel"
  shows "run_load_on_device be p d i fuel =
           (fst (run_load_on_device be p d i 0)
            @ concat (replicate k [EnqueueNDRangeKernel q kern dataSizeElements CL_SUCCESS,
                                   Finish q CL_SUCCESS])
            @ (if clEnqueueNDRangeKernel be q kern dataSizeElements k \<noteq> CL_SUCCESS
               then [EnqueueNDRangeKernel q kern dataSizeElements
                       (clEnqueueNDRangeKernel be q kern dataSizeElements k),
                     Stderr (''Device '' @ to_string i @ '': clEnqueueNDRangeKernel failed: ''
                             @ to_string (clEnqueueNDRangeKernel be q kern dataSizeElements k))]
               else [EnqueueNDRangeKernel q kern dataSizeElements CL_SUCCESS,
                     Finish q (clFinish be q k),
                     Stderr (''Device '' @ to_string i @ '': clFinish failed: ''
                             @ to_string (clFinish be q k))])
            @ [Stdout (''Device '' @ to_string i @ '': Exited kernel execution loop.''),
               ReleaseMemObject buf, ReleaseKernel kern, ReleaseProgram prog,
               ReleaseCommandQueue q, ReleaseContext ctx,
               Stdout (''Finished load and cleaned up for Device '' @ to_string i)],
            Returned) \<and>
         snd (run_load_on_device be p d i 0) = Running \<and>
         (status (main be fuel lag) = Terminate \<longrightarrow> list_ex threw (runs (main be fuel lag))) \<and>
         (\<forall>f h p' d' i' e' ctx' qs' e2' q' fuel'.
            clCreateContext be p' d' = (e', ctx') \<and> create_queue be ctx' d' i' = (qs', e2', q') \<and>
            f q' = clEnqueueNDRangeKernel be q' \<and> h q' = clFinish be q' \<longrightarrow>
              run_load_on_device (be\<lparr>clEnqueueNDRangeKernel := f, clFinish := h\<rparr>) p' d' i' fuel'
              = run_load_on_device be p' d' i' fuel')"
proof (intro conjI)
  have l0: "steady_loop be i q kern dataSizeElements 0 0 = ([], False)"
    by simp
  note k0 = run_kernel_loop [OF assms(5-8) l0]
  note r0 = run_load_on_device_loop [OF assms(1-4) k0]
  from assms(9-11) have l: "steady_loop be i q kern dataSizeElements 0 fuel =
      (concat (replicate k [EnqueueNDRangeKernel q kern dataSizeElements CL_SUCCESS, Finish q CL_SUCCESS])
       @ (if clEnqueueNDRangeKernel be q kern dataSizeElements k \<noteq> CL_SUCCESS
               then [EnqueueNDRangeKernel q kern dataSizeElements
                       (clEnqueueNDRangeKernel be q kern dataSizeElements k),
                     Stderr (''Device '' @ to_string i @ '': clEnqueueNDRangeKernel failed: ''
                             @ to_string (clEnqueueNDRangeKernel be q kern dataSizeElements k))]
               else [EnqueueNDRangeKernel q kern dataSizeElements CL_SUCCESS,
                     Finish q (clFinish be q k),
                     Stderr (''Device '' @ to_string i @ '': clFinish failed: ''
                             @ to_string (clFinish be q k))]), True)"
    using steady_loop_first_failure [of k be q kern dataSizeElements 0 fuel i] by simp
  note k1 = run_kernel_loop [OF assms(5-8) l]
  note r1 = run_load_on_device_loop [OF assms(1-4) k1]
  show "run_load_on_device be p d i fuel =
           (fst (run_load_on_device be p d i 0)
            @ concat (replicate k [EnqueueNDRangeKernel q kern dataSizeElements CL_SUCCESS,
                                   Finish q CL_SUCCESS])
            @ (if clEnqueueNDRangeKernel be q kern dataSizeElements k \<noteq> CL_SUCCESS
               then [EnqueueNDRangeKernel q kern dataSizeElements
                       (clEnqueueNDRangeKernel be q kern dataSizeElements k),
                     Stderr (''Device '' @ to_string i @ '': clEnqueueNDRangeKernel failed: ''
                             @ to_string (clEnqueueNDRangeKernel be q kern dataSizeElements k))]
               else [EnqueueNDRangeKernel q kern dataSizeElements CL_SUCCESS,
                     Finish q (clFinish be q k),
                     Stderr (''Device '' @ to_string i @ '': clFinish failed: ''
                             @ to_string (clFinish be q k))])
            @ [Stdout (''Device '' @ to_string i @ '': Exited kernel execution loop.''),
               ReleaseMemObject buf, ReleaseKernel kern, ReleaseProgram prog,
               ReleaseCommandQueue q, ReleaseContext ctx,
               Stdout (''Finished load and cleaned up for Device '' @ to_string i)],
            Returned)"
    unfolding r1 r0 by simp
  show "snd (run_load_on_device be p d i 0) = Running"
    unfolding r0 by simp
  show "status (main be fuel lag) = Terminate \<longrightarrow> list_ex threw (runs (main be fuel lag))"
    using main_terminate by blast
  show "\<forall>f h p' d' i' e' ctx' qs' e2' q' fuel'.
            clCreateContext be p' d' = (e', ctx') \<and> create_queue be ctx' d' i' = (qs', e2', q') \<and>
            f q' = clEnqueueNDRangeKernel be q' \<and> h q' = clFinish be q' \<longrightarrow>
              run_load_on_device (be\<lparr>clEnqueueNDRangeKernel := f, clFinish := h\<rparr>) p' d' i' fuel'
              = run_load_on_device be p' d' i' fuel'"
    using run_load_on_device_other_queue by blast
qed

theorem dispatch_failure_ends_one_loop_witness:
  "clEnqueueNDRangeKernel mock_sync_failure 12 15 dataSizeElements 0 = CL_SUCCESS \<and>
   clFinish mock_sync_failure 12 0 \<noteq> CL_SUCCESS \<and>
   run_load_on_device mock_sync_failure 1 10 0 1 =
     ([Stdout ''Starting load on Device 0: Intel(R) Arc(TM) Graphics'',
       CreateContext 1 10 0 11, CreateCommandQueueWithProperties 11 10 0 12,
       CreateProgramWithSource 11 0 14, BuildProgram 14 10 0,
       CreateKernel 14 0 15, CreateBuffer 11 33554432 0 16,
       SetKernelArg_mem 15 0 16 0, SetKernelArg_int 15 1 8388608 0,
       Stdout ''Device 0: Entering continuous kernel execution loop...'',
       EnqueueNDRangeKernel 12 15 8388608 0, Finish 12 (- 36),
       Stderr ''Device 0: clFinish failed: -36'',
       Stdout ''Device 0: Exited kernel execution loop.'',
       ReleaseMemObject 16, ReleaseKernel 15, ReleaseProgram 14,
       ReleaseCommandQueue 12, ReleaseContext 11,
       Stdout ''Finished load and cleaned up for Device 0''], Returned) \<and>
   run_load_on_device mock_sync_failure 1 20 1 1 = run_load_on_device mock 1 20 1 1 \<and>
   status (main mock_sync_failure 1 (\<lambda>i. 0)) = Blocked"
proof -
  have h: "clCreateContext mock_sync_failure 1 10 = (CL_SUCCESS, 11)"
    "create_queue mock_sync_failure 11 10 0 = ([CreateCommandQueueWithProperties 11 10 0 12], CL_SUCCESS, 12)"
    "clCreateProgramWithSource mock_sync_failure 11 = (CL_SUCCESS, 14)"
    "clBuildProgram mock_sync_failure 14 10 = CL_SUCCESS"
    "clCreateKernel mock_sync_failure 14 = (CL_SUCCESS, 15)"
    "clCreateBuffer mock_sync_failure 11 (4 * dataSizeElements) = (CL_SUCCESS, 16)"
    "clSetKernelArg mock_sync_failure 15 0 = CL_SUCCESS" "clSetKernelArg mock_sync_failure 15 1 = CL_SUCCESS"
    "\<forall>j<0. clEnqueueNDRangeKernel mock_sync_failure 12 15 dataSizeElements j = CL_SUCCESS \<and>
                 clFinish mock_sync_failure 12 j = CL_SUCCESS"
    "clEnqueueNDRangeKernel mock_sync_failure 12 15 dataSizeElements 0 \<noteq> CL_SUCCESS \<or>
           clFinish mock_sync_failure 12 0 \<noteq> CL_SUCCESS"
    "(0::nat) < 1"
    by (simp_all add: mock_defs CL_SUCCESS_def create_queue_def)
  have e: "clEnqueueNDRangeKernel mock_sync_failure 12 15 dataSizeElements 0 = CL_SUCCESS"
    "clFinish mock_sync_failure 12 0 = - 36"
    by (simp_all add: mock_defs CL_SUCCESS_def)
  have r0: "fst (run_load_on_device mock_sync_failure 1 10 0 0) =
      [Stdout ''Starting load on Device 0: Intel(R) Arc(TM) Graphics'',
       CreateContext 1 10 0 11, CreateCommandQueueWithProperties 11 10 0 12,
       CreateProgramWithSource 11 0 14, BuildProgram 14 10 0,
       CreateKernel 14 0 15, CreateBuffer 11 33554432 0 16,
       SetKernelArg_mem 15 0 16 0, SetKernelArg_int 15 1 8388608 0,
       Stdout ''Device 0: Entering continuous kernel execution loop...'']"
    by (simp add: mock_defs eval_defs run_defs dataSizeElements_def to_int32_def)
  note t = dispatch_failure_ends_one_loop [OF h]
  have a: "run_load_on_device mock_sync_failure 1 10 0 1 =
     ([Stdout ''Starting load on Device 0: Intel(R) Arc(TM) Graphics'',
       CreateContext 1 10 0 11, CreateCommandQueueWithProperties 11 10 0 12,
       CreateProgramWithSource 11 0 14, BuildProgram 14 10 0,
       CreateKernel 14 0 15, CreateBuffer 11 33554432 0 16,
       SetKernelArg_mem 15 0 16 0, SetKernelArg_int 15 1 8388608 0,
       Stdout ''Device 0: Entering continuous kernel execution loop...'',
       EnqueueNDRangeKernel 12 15 8388608 0, Finish 12 (- 36),
       Stderr ''Device 0: clFinish failed: -36'',
       Stdout ''Device 0: Exited kernel execution loop.'',
       ReleaseMemObject 16, ReleaseKernel 15, ReleaseProgram 14,
       ReleaseCommandQueue 12, ReleaseContext 11,
       Stdout ''Finished load and cleaned up for Device 0''], Returned)"
    using t [THEN conjunct1] unfolding r0 e
    by (simp add: CL_SUCCESS_def to_string_def string_of_nat.simps dataSizeElements_def)
  have m: "mock_sync_failure\<lparr>clEnqueueNDRangeKernel := clEnqueueNDRangeKernel mock,
              clFinish := clFinish mock\<rparr> = mock"
    by (simp add: mock_defs)
  have o: "clCreateContext mock_sync_failure 1 20 = (0, 21)"
     "create_queue mock_sync_failure 21 20 1 = ([CreateCommandQueueWithProperties 21 20 0 22], 0, 22)"
     "clEnqueueNDRangeKernel mock 22 = clEnqueueNDRangeKernel mock_sync_failure 22"
     "clFinish mock 22 = clFinish mock_sync_failure 22"
    by (simp_all add: mock_defs CL_SUCCESS_def create_queue_def)
  have b: "run_load_on_device mock_sync_failure 1 20 1 1 = run_load_on_device mock 1 20 1 1"
    using t [THEN conjunct2, THEN conjunct2, THEN conjunct2, rule_format,
          of 1 20 0 21 1 "[CreateCommandQueueWithProperties 21 20 0 22]" 0 22
             "clEnqueueNDRangeKernel mock" "clFinish mock" 1] o
    unfolding m by simp
  have c: "status (main mock_sync_failure 1 (\<lambda>i. 0)) = Blocked"
    by (simp add: mock_defs eval_defs run_defs dataSizeElements_def to_int32_def)
  show ?thesis using e(1) h(10) a b c by (simp add: e)
qed

text \<open>
  Claim C6. When the modern call to create the queue fails and the legacy call succeeds,
  and the rest of the set-up succeeds, the runner prints the notice of the fallback,
  prints nothing on the error stream, goes through the set-up and enters its loop on
  the queue of the legacy call. But for the failed call and the notice, its trace and its
  outcome are those of a run on a runtime whose modern call gave that queue.
\<close>

theorem queue_fallback_proceeds:
  assumes "clCreateContext be p d = (CL_SUCCESS, ctx)"
      and "clCreateCommandQueueWithProperties be ctx d = (err, q0)" and "err \<noteq> CL_SUCCESS"
      and "clCreateCommandQueue be ctx d = (CL_SUCCESS, q)"
      and "clCreateProgramWithSource be ctx = (CL_SUCCESS, prog)"
      and "clBuildProgram be prog d = CL_SUCCESS"
      and "clCreateKernel be prog = (CL_SUCCESS, kern)"
      and "clCreateBuffer be ctx (4 * dataSizeElements) = (CL_SUCCESS, buf)"
      and "clSetKernelArg be kern 0 = CL_SUCCESS" and "clSetKernelArg be kern 1 = CL_SUCCESS"
  shows "run_load_on_device be p d i fuel =
           ([Stdout (''Starting load on Device '' @ to_string i @ '': '' @ clGetDeviceInfo_name be d),
             CreateContext p d CL_SUCCESS ctx,
             CreateCommandQueueWithProperties ctx d err q0,
             Stdout (''Device '' @ to_string i @ '': clCreateCommandQueueWithProperties failed (''
                     @ to_string err @ ''), trying clCreateCommandQueue.''),
             CreateCommandQueue ctx d CL_SUCCESS q,
             CreateProgramWithSource ctx CL_SUCCESS prog, BuildProgram prog d CL_SUCCESS,
             CreateKernel prog CL_SUCCESS kern, CreateBuffer ctx 33554432 CL_SUCCESS buf,
             SetKernelArg_mem kern 0 buf CL_SUCCESS, SetKernelArg_int kern 1 8388608 CL_SUCCESS,
             Stdout (''Device '' @ to_string i @ '': Entering continuous kernel execution loop...'')]
            @ fst (steady_loop be i q kern dataSizeElements 0 fuel)
            @ (if snd (steady_loop be i q kern dataSizeElements 0 fuel)
               then [Stdout (''Device '' @ to_string i @ '': Exited kernel execution loop.''),
                     ReleaseMemObject buf, ReleaseKernel kern, ReleaseProgram prog,
                     ReleaseCommandQueue q, ReleaseContext ctx,
                     Stdout (''Finished load and cleaned up for Device '' @ to_string i)]
               else []),
            if snd (steady_loop be i q kern dataSizeElements 0 fuel) then Returned else Running) \<and>
         (\<exists>pre post res.
            run_load_on_device be p d i fuel =
              (pre @ [CreateCommandQueueWithProperties ctx d err q0,
                      Stdout (''Device '' @ to_string i @ '': clCreateCommandQueueWithProperties failed (''
                              @ to_string err @ ''), trying clCreateCommandQueue.''),
                      CreateCommandQueue ctx d CL_SUCCESS q] @ post, res) \<and>
            run_load_on_device (be\<lparr>clCreateCommandQueueWithProperties := clCreateCommandQueue be\<rparr>)
                p d i fuel =
              (pre @ [CreateCommandQueueWithProperties ctx d CL_SUCCESS q] @ post, res))"
proof -
  let ?be = "be\<lparr>clCreateCommandQueueWithProperties := clCreateCommandQueue be\<rparr>"
  let ?notice = "Stdout (''Device '' @ to_string i @ '': clCreateCommandQueueWithProperties failed (''
                              @ to_string err @ ''), trying clCreateCommandQueue.'')"
  obtain es left where l: "steady_loop be i q kern dataSizeElements 0 fuel = (es, left)"
    by (cases "steady_loop be i q kern dataSizeElements 0 fuel")
  have l': "steady_loop ?be i q kern dataSizeElements 0 fuel = (es, left)"
    using steady_loop_cong [of ?be q kern dataSizeElements be i 0 fuel] l by simp
  have cq: "create_queue be ctx d i =
      ([CreateCommandQueueWithProperties ctx d err q0, ?notice, CreateCommandQueue ctx d CL_SUCCESS q],
       CL_SUCCESS, q)"
    using assms(2-4) by (simp add: create_queue_def)
  have cq': "create_queue ?be ctx d i = ([CreateCommandQueueWithProperties ctx d CL_SUCCESS q], CL_SUCCESS, q)"
    using assms(4) by (simp add: create_queue_def)
  note k = run_kernel_loop [OF assms(7-10) l]
  note r = run_load_on_device_loop [OF assms(1) cq assms(5,6) k]
  have k': "run_kernel ?be i ctx q prog fuel = run_kernel be i ctx q prog fuel"
    by (rule run_kernel_cong) simp_all
  have r': "run_load_on_device ?be p d i fuel =
     ([Stdout (''Starting load on Device '' @ to_string i @ '': '' @ clGetDeviceInfo_name ?be d),
       CreateContext p d CL_SUCCESS ctx] @ [CreateCommandQueueWithProperties ctx d CL_SUCCESS q]
      @ [CreateProgramWithSource ctx CL_SUCCESS prog, BuildProgram prog d CL_SUCCESS]
      @ fst (run_kernel be i ctx q prog fuel), snd (run_kernel be i ctx q prog fuel))"
    by (rule run_load_on_device_loop [OF _ cq']) (simp_all add: assms k')
  have one: "run_load_on_device be p d i fuel =
           ([Stdout (''Starting load on Device '' @ to_string i @ '': '' @ clGetDeviceInfo_name be d),
             CreateContext p d CL_SUCCESS ctx,
             CreateCommandQueueWithProperties ctx d err q0, ?notice,
             CreateCommandQueue ctx d CL_SUCCESS q,
             CreateProgramWithSource ctx CL_SUCCESS prog, BuildProgram prog d CL_SUCCESS,
             CreateKernel prog CL_SUCCESS kern, CreateBuffer ctx 33554432 CL_SUCCESS buf,
             SetKernelArg_mem kern 0 buf CL_SUCCESS, SetKernelArg_int kern 1 8388608 CL_SUCCESS,
             Stdout (''Device '' @ to_string i @ '': Entering continuous kernel execution loop...'')]
            @ fst (steady_loop be i q kern dataSizeElements 0 fuel)
            @ (if snd (steady_loop be i q kern dataSizeElements 0 fuel)
               then [Stdout (''Device '' @ to_string i @ '': Exited kernel execution loop.''),
                     ReleaseMemObject buf, ReleaseKernel kern, ReleaseProgram prog,
                     ReleaseCommandQueue q, ReleaseContext ctx,
                     Stdout (''Finished load and cleaned up for Device '' @ to_string i)]
               else []),
            if snd (steady_loop be i q kern dataSizeElements 0 fuel) then Returned else Running)"
    unfolding r l by simp
  have two: "run_load_on_device be p d i fuel =
      ([Stdout (''Starting load on Device '' @ to_string i @ '': '' @ clGetDeviceInfo_name be d),
             CreateContext p d CL_SUCCESS ctx]
       @ [CreateCommandQueueWithProperties ctx d err q0, ?notice, CreateCommandQueue ctx d CL_SUCCESS q]
       @ ([CreateProgramWithSource ctx CL_SUCCESS prog, BuildProgram prog d CL_SUCCESS]
          @ fst (run_kernel be i ctx q prog fuel)), snd (run_kernel be i ctx q prog fuel))"
    unfolding r k by simp
  have three: "run_load_on_device ?be p d i fuel =
      ([Stdout (''Starting load on Device '' @ to_string i @ '': '' @ clGetDeviceInfo_name be d),
             CreateContext p d CL_SUCCESS ctx]
       @ [CreateCommandQueueWithProperties ctx d CL_SUCCESS q]
       @ ([CreateProgramWithSource ctx CL_SUCCESS prog, BuildProgram prog d CL_SUCCESS]
          @ fst (run_kernel be i ctx q prog fuel)), snd (run_kernel be i ctx q prog fuel))"
    unfolding r' by simp
  from two three have "\<exists>pre post res.
            run_load_on_device be p d i fuel =
              (pre @ [CreateCommandQueueWithProperties ctx d err q0, ?notice,
                      CreateCommandQueue ctx d CL_SUCCESS q] @ post, res) \<and>
            run_load_on_device ?be p d i fuel =
              (pre @ [CreateCommandQueueWithProperties ctx d CL_SUCCESS q] @ post, res)"
    by blast
  with one show ?thesis by blast
qed

theorem queue_fallback_proceeds_witness:
  "clCreateCommandQueueWithProperties mock_legacy_queue 11 10 = (- 30, 0) \<and>
   clCreateCommandQueue mock_legacy_queue 11 10 = (CL_SUCCESS, 13) \<and>
   run_load_on_device mock_legacy_queue 1 10 0 1 =
     ([Stdout ''Starting load on Device 0: Intel(R) Arc(TM) Graphics'',
       CreateContext 1 10 0 11, CreateCommandQueueWithProperties 11 10 (- 30) 0,
       Stdout ''Device 0: clCreateCommandQueueWithProperties failed (-30), trying clCreateCommandQueue.'',
       CreateCommandQueue 11 10 0 13, CreateProgramWithSource 11 0 14,
       BuildProgram 14 10 0, CreateKernel 14 0 15, CreateBuffer 11 33554432 0 16,
       SetKernelArg_mem 15 0 16 0, SetKernelArg_int 15 1 8388608 0,
       Stdout ''Device 0: Entering continuous kernel execution loop...'',
       EnqueueNDRangeKernel 13 15 8388608 0, Finish 13 0], Running)"
proof -
  have h: "clCreateContext mock_legacy_queue 1 10 = (CL_SUCCESS, 11)"
    "clCreateCommandQueueWithProperties mock_legacy_queue 11 10 = (- 30, 0)"
    "(- 30 :: int) \<noteq> CL_SUCCESS"
    "clCreateCommandQueue mock_legacy_queue 11 10 = (CL_SUCCESS, 13)"
    "clCreateProgramWithSource mock_legacy_queue 11 = (CL_SUCCESS, 14)"
    "clBuildProgram mock_legacy_queue 14 10 = CL_SUCCESS"
    "clCreateKernel mock_legacy_queue 14 = (CL_SUCCESS, 15)"
    "clCreateBuffer mock_legacy_queue 11 (4 * dataSizeElements) = (CL_SUCCESS, 16)"
    "clSetKernelArg mock_legacy_queue 15 0 = CL_SUCCESS" "clSetKernelArg mock_legacy_queue 15 1 = CL_SUCCESS"
    by (simp_all add: mock_defs CL_SUCCESS_def)
  have l: "steady_loop mock_legacy_queue 0 13 15 dataSizeElements 0 1 =
      ([EnqueueNDRangeKernel 13 15 8388608 0, Finish 13 0], False)"
    by (simp add: mock_defs CL_SUCCESS_def dataSizeElements_def)
  have n: "clGetDeviceInfo_name mock_legacy_queue 10 = ''Intel(R) Arc(TM) Graphics''"
    by (simp add: mock_defs)
  show ?thesis
    using queue_fallback_proceeds [OF h, of 0 1, THEN conjunct1] h(2,4)
    unfolding l n
    by (simp add: CL_SUCCESS_def to_string_def string_of_nat.simps)
qed

subsection \<open>A runner that throws\<close>

text \<open>
  A runner whose program does not build prints the build log and throws, and a runner
  that throws ends the whole process.
\<close>

lemma build_failure_throws:
  assumes "clCreateContext be p d = (CL_SUCCESS, ctx)"
      and "create_queue be ctx d i = (qs, CL_SUCCESS, q)"
      and "clCreateProgramWithSource be ctx = (CL_SUCCESS, prog)"
      and "clBuildProgram be prog d = err" and "err \<noteq> CL_SUCCESS"
  shows "run_load_on_device be p d i fuel =
     ([Stdout (''Starting load on Device '' @ to_string i @ '': '' @ clGetDeviceInfo_name be d),
       CreateContext p d CL_SUCCESS ctx] @ qs
      @ [CreateProgramWithSource ctx CL_SUCCESS prog, BuildProgram prog d err,
         GetProgramBuildInfo prog d, GetProgramBuildInfo prog d,
         Stderr (''Device '' @ to_string i @ '' Kernel build log:\<newline>''
                 @ clGetProgramBuildInfo_log be prog d)],
      Threw (''clBuildProgram failed with error code '' @ to_string err))"
  using assms by (simp add: run_load_on_device_def check_cl_error_def)

lemma thrown_exception_terminates:
  assumes "r \<in> set (runs (main be fuel lag))" and "threw r"
  shows "status (main be fuel lag) = Terminate"
proof -
  from assms(1) have ne: "runs (main be fuel lag) \<noteq> []" by auto
  have ex: "list_ex threw (runs (main be fuel lag))"
    using assms by (auto simp: list_ex_iff)
  show ?thesis
    using ne ex
    by (auto simp: main_def Let_def split: prod.splits sum.splits if_splits)
qed

text \<open>
  Claim C1 fails on the code. With two GPUs, when the kernel does not compile for the
  first, its runner prints the build log and \<open>check_cl_error\<close> throws; nothing in
  \<open>run_load_on_device\<close> catches the exception, so it leaves the thread's function and
  the process is terminated, whatever the fuel and whatever the timing: with the runner
  of the second GPU, which has no failure, still in its loop, or, when the exception
  comes within the 500 ms that \<open>main\<close> sleeps after the first start, before that runner
  is started at all.
\<close>

theorem build_failure_terminates_process:
  "runs (main mock_build_failure fuel lag) ! 0 =
     ([Stdout ''Starting load on Device 0: Intel(R) Arc(TM) Graphics'',
       CreateContext 1 10 0 11, CreateCommandQueueWithProperties 11 10 0 12,
       CreateProgramWithSource 11 0 14, BuildProgram 14 10 (- 11),
       GetProgramBuildInfo 14 10, GetProgramBuildInfo 14 10,
       Stderr ''Device 0 Kernel build log:\<newline>error: use of undeclared identifier''],
      Threw ''clBuildProgram failed with error code -11'') \<and>
   status (main mock_build_failure fuel lag) = Terminate \<and>
   (0 < lag 0 \<longrightarrow>
      threads (main mock_build_failure fuel lag) = [(1, 10, 0), (1, 20, 1)] \<and>
      snd (runs (main mock_build_failure fuel lag) ! 1) = Running) \<and>
   (lag 0 = 0 \<longrightarrow> threads (main mock_build_failure fuel lag) = [(1, 10, 0)])"
proof -
  have l: "steady_loop mock_build_failure 1 22 25 dataSizeElements 0 fuel =
      (concat (replicate fuel [EnqueueNDRangeKernel 22 25 dataSizeElements CL_SUCCESS,
                               Finish 22 CL_SUCCESS]), False)"
    by (rule steady_loop_running) (simp add: mock_defs CL_SUCCESS_def)
  have k: "snd (run_kernel mock_build_failure 1 21 22 24 fuel) = Running"
    by (subst run_kernel_loop [OF _ _ _ _ l, where prog = 24 and ctx = 21 and buf = 26])
       (simp_all add: mock_defs CL_SUCCESS_def)
  have r: "snd (run_load_on_device mock_build_failure 1 20 1 fuel) = Running"
    using k by (simp add: mock_defs run_load_on_device_def create_queue_def check_cl_error_def
        CL_SUCCESS_def case_prod_beta)
  have r0: "run_load_on_device mock_build_failure 1 10 0 fuel =
     ([Stdout ''Starting load on Device 0: Intel(R) Arc(TM) Graphics'',
       CreateContext 1 10 0 11, CreateCommandQueueWithProperties 11 10 0 12,
       CreateProgramWithSource 11 0 14, BuildProgram 14 10 (- 11),
       GetProgramBuildInfo 14 10, GetProgramBuildInfo 14 10,
       Stderr ''Device 0 Kernel build log:\<newline>error: use of undeclared identifier''],
      Threw ''clBuildProgram failed with error code -11'')"
    by (simp add: mock_defs eval_defs run_load_on_device_def create_queue_def)
  have h: "clGetPlatformIDs_count mock_build_failure = (CL_SUCCESS, 1)" "(0::nat) < 1"
    "clGetPlatformIDs_list mock_build_failure = (CL_SUCCESS, [1])"
    "scan_platforms mock_build_failure (take 1 ([1] @ replicate 1 0)) [] = ([], Inr [(1, 10), (1, 20)])"
    "[(1, 10), (1, 20)] \<noteq> ([] :: (nat \<times> nat) list)"
    by (simp_all add: mock_defs CL_SUCCESS_def CL_DEVICE_NOT_FOUND_def check_cl_error_def)
  note m = main_devices [OF h, of fuel lag]
  have t0: "threw (run_load_on_device mock_build_failure 1 10 0 fuel)"
    unfolding r0 threw_def by simp
  have st: "start_threads mock_build_failure fuel lag [(1, 10), (1, 20)] 0 None =
      ((1, 10, 0), run_load_on_device mock_build_failure 1 10 0 fuel)
      # (if lag 0 = 0 then []
         else [((1, 20, 1), run_load_on_device mock_build_failure 1 20 1 fuel)])"
    using t0 by (simp add: Let_def)
  show ?thesis
    using r t0 r0 by (auto simp: m st)
qed

theorem build_failure_terminates_process_witness:
  "clBuildProgram mock_build_failure 14 10 \<noteq> CL_SUCCESS \<and>
   clBuildProgram mock_build_failure 24 20 = CL_SUCCESS \<and>
   (\<exists>t. runs (main mock_build_failure 1 (\<lambda>i. 1)) ! 0
          = (t, Threw ''clBuildProgram failed with error code -11'')) \<and>
   threads (main mock_build_failure 1 (\<lambda>i. 1)) = [(1, 10, 0), (1, 20, 1)] \<and>
   snd (runs (main mock_build_failure 1 (\<lambda>i. 1)) ! 1) = Running \<and>
   status (main mock_build_failure 1 (\<lambda>i. 1)) = Terminate \<and>
   threads (main mock_build_failure 1 (\<lambda>i. 0)) = [(1, 10, 0)] \<and>
   status (main mock_build_failure 1 (\<lambda>i. 0)) = Terminate"
proof -
  have "clBuildProgram mock_build_failure 14 10 \<noteq> CL_SUCCESS"
    and "clBuildProgram mock_build_failure 24 20 = CL_SUCCESS"
    by (simp_all add: mock_defs CL_SUCCESS_def)
  then show ?thesis
    using build_failure_terminates_process [of 1 "\<lambda>i. 1"]
      build_failure_terminates_process [of 1 "\<lambda>i. 0"] by simp
qed


subsection \<open>The objects a runner works on\<close>

lemma objects_append [simp]:
  "objects_created (s @ t) = objects_created s @ objects_created t"
  "objects_used (s @ t) = objects_used s @ objects_used t"
  by (simp_all add: objects_created_def objects_used_def)

lemma objects_Cons [simp]:
  "objects_created (e # t) = created e @ objects_created t"
  "objects_used (e # t) = used e @ objects_used t"
  "objects_created [] = []" "objects_used [] = []"
  by (simp_all add: objects_created_def objects_used_def)

lemma steady_loop_objects:
  "set (objects_used (fst (steady_loop be i q kern g n fuel))) \<subseteq> {Queue q, Kernel kern}"
  "objects_created (fst (steady_loop be i q kern g n fuel)) = []"
proof (induction fuel arbitrary: n)
  case 0
  {
    case 1 show ?case by simp
  next
    case 2 show ?case by simp
  }
next
  case (Suc fuel)
  {
    case 1
    show ?case using Suc(1) [of "Suc n"] by (auto simp: Let_def case_prod_beta)
  next
    case 2
    show ?case using Suc(2) [of "Suc n"] by (simp add: Let_def case_prod_beta)
  }
qed

lemma create_queue_objects:
  assumes "create_queue be ctx d i = (qs, err, q)"
  shows "set (objects_used qs) \<subseteq> {Context ctx}"
    and "err = CL_SUCCESS \<Longrightarrow> Queue q \<in> set (objects_created qs)"
  using assms by (auto simp: create_queue_def Let_def split: prod.splits if_splits)

lemma run_kernel_objects:
  "set (objects_used (fst (run_kernel be i ctx q prog fuel)))
     \<subseteq> {Context ctx, Queue q, Program prog} \<union> set (objects_created (fst (run_kernel be i ctx q prog fuel)))"
proof -
  obtain es left where l: "steady_loop be i q (snd (clCreateKernel be prog)) dataSizeElements 0 fuel = (es, left)"
    by (cases "steady_loop be i q (snd (clCreateKernel be prog)) dataSizeElements 0 fuel")
  have u: "set (objects_used es) \<subseteq> {Queue q, Kernel (snd (clCreateKernel be prog))}" and c: "objects_created es = []"
    using steady_loop_objects [of be i q "snd (clCreateKernel be prog)" dataSizeElements 0 fuel] l by simp_all
  show ?thesis
    using u c l
    by (auto simp: run_kernel_def check_cl_error_def Let_def split: prod.splits if_splits)
qed

lemma run_load_on_device_objects:
  "set (objects_used (fst (run_load_on_device be p d i fuel)))
     \<subseteq> set (objects_created (fst (run_load_on_device be p d i fuel)))"
proof -
  obtain e ctx where c: "clCreateContext be p d = (e, ctx)" by (cases "clCreateContext be p d")
  obtain qs e2 q where cq: "create_queue be ctx d i = (qs, e2, q)" by (cases "create_queue be ctx d i") auto
  obtain e3 prog where pr: "clCreateProgramWithSource be ctx = (e3, prog)" by (cases "clCreateProgramWithSource be ctx")
  note q = create_queue_objects [OF cq]
  note k = run_kernel_objects [of be i ctx q prog fuel]
  show ?thesis
    using c cq pr q k
    by (auto simp: run_load_on_device_def check_cl_error_def Let_def split: prod.splits if_splits)
qed

lemma distinct_concat_nth_disjoint:
  assumes "distinct (concat xs)" and "i < j" and "j < length xs"
  shows "set (xs ! i) \<inter> set (xs ! j) = {}"
proof -
  have "xs = take j xs @ xs ! j # drop (Suc j) xs"
    using assms(3) by (rule id_take_nth_drop)
  then have "concat xs = concat (take j xs) @ xs ! j @ concat (drop (Suc j) xs)"
    by (metis concat.simps(2) concat_append)
  with assms(1) have d: "set (concat (take j xs)) \<inter> set (xs ! j) = {}"
    by auto
  have "xs ! i \<in> set (take j xs)"
    using assms(2,3) by (metis in_set_conv_nth length_take less_imp_le_nat less_trans min.absorb2 nth_take)
  then have "set (xs ! i) \<subseteq> set (concat (take j xs))"
    by auto
  with d show ?thesis by blast
qed

subsection \<open>One runner for each device\<close>

text \<open>
  The threads started are runners of the first pairs found, in their order and with the
  indices from 0 on, each on objects it has created itself; they are runners of all the
  pairs unless the process is terminated.
\<close>

lemma start_threads_nth:
  "j < length (start_threads be fuel lag gpus c pend) \<Longrightarrow>
   j < length gpus \<and>
   start_threads be fuel lag gpus c pend ! j =
     ((fst (gpus ! j), snd (gpus ! j), c + int j),
      run_load_on_device be (fst (gpus ! j)) (snd (gpus ! j)) (c + int j) fuel)"
proof (induction gpus arbitrary: c pend j)
  case Nil
  then show ?case by simp
next
  case (Cons a gpus)
  show ?case
  proof (cases j)
    case 0
    with Cons.prems show ?thesis by (auto simp: Let_def split: if_splits)
  next
    case (Suc k)
    with Cons.prems obtain pend2 where
      s: "start_threads be fuel lag (a # gpus) c pend =
            ((fst a, snd a, c), run_load_on_device be (fst a) (snd a) c fuel)
            # start_threads be fuel lag gpus (c + 1) pend2"
      by (auto simp: Let_def split: if_splits)
    with Cons.prems Suc have "k < length (start_threads be fuel lag gpus (c + 1) pend2)"
      by simp
    from Cons.IH [OF this] s Suc show ?thesis by (simp add: algebra_simps)
  qed
qed

lemma start_threads_all:
  assumes "\<forall>r \<in> set (map snd (start_threads be fuel lag gpus c None)). \<not> threw r"
  shows "length (start_threads be fuel lag gpus c None) = length gpus"
  using assms
proof (induction gpus arbitrary: c)
  case Nil
  then show ?case by simp
next
  case (Cons a gpus)
  let ?r = "run_load_on_device be (fst a) (snd a) c fuel"
  have "\<not> threw ?r"
    using Cons.prems by (simp add: Let_def)
  then have s: "start_threads be fuel lag (a # gpus) c None =
            ((fst a, snd a, c), ?r) # start_threads be fuel lag gpus (c + 1) None"
    by (simp add: Let_def)
  with Cons.prems have "\<forall>r \<in> set (map snd (start_threads be fuel lag gpus (c + 1) None)). \<not> threw r"
    by simp
  from Cons.IH [OF this] s show ?case by simp
qed

lemma runners_of_main:
  assumes "clGetPlatformIDs_count be = (CL_SUCCESS, n)" and "0 < n"
      and "clGetPlatformIDs_list be = (CL_SUCCESS, written)"
      and "scan_platforms be (take n (written @ replicate n 0)) [] = (es, Inr gpus)"
      and "gpus \<noteq> []"
  shows "length (runs (main be fuel lag)) = length (threads (main be fuel lag)) \<and>
         length (threads (main be fuel lag)) \<le> length gpus \<and>
         (status (main be fuel lag) \<noteq> Terminate \<longrightarrow>
            length (threads (main be fuel lag)) = length gpus) \<and>
         (\<forall>j<length (threads (main be fuel lag)).
            threads (main be fuel lag) ! j = (fst (gpus ! j), snd (gpus ! j), int j) \<and>
            runs (main be fuel lag) ! j
              = run_load_on_device be (fst (gpus ! j)) (snd (gpus ! j)) (int j) fuel \<and>
            set (objects_used (fst (runs (main be fuel lag) ! j)))
              \<subseteq> set (objects_created (fst (runs (main be fuel lag) ! j)))) \<and>
         (distinct (concat (map (\<lambda>r. objects_created (fst r)) (runs (main be fuel lag)))) \<longrightarrow>
            (\<forall>j j'. j < j' \<and> j' < length (threads (main be fuel lag)) \<longrightarrow>
               set (objects_used (fst (runs (main be fuel lag) ! j)))
               \<inter> set (objects_used (fst (runs (main be fuel lag) ! j'))) = {}))"
proof -
  let ?st = "start_threads be fuel lag gpus 0 None"
  note m = main_devices [OF assms, of fuel lag]
  have l: "length (runs (main be fuel lag)) = length (threads (main be fuel lag))"
    by (simp add: m(1,2))
  have le: "length (threads (main be fuel lag)) \<le> length gpus"
  proof (cases "length ?st")
    case 0
    then show ?thesis by (simp add: m(1))
  next
    case (Suc k)
    then have "k < length ?st" by simp
    from start_threads_nth [OF this] Suc show ?thesis by (simp add: m(1))
  qed
  have all: "length (threads (main be fuel lag)) = length gpus"
    if "status (main be fuel lag) \<noteq> Terminate"
  proof -
    from that have "\<not> list_ex threw (runs (main be fuel lag))"
      by (simp add: m(3) split: if_splits)
    then have "\<forall>r \<in> set (map snd ?st). \<not> threw r"
      by (simp add: m(2) list_ex_iff)
    from start_threads_all [OF this] show ?thesis by (simp add: m(1))
  qed
  have nth: "threads (main be fuel lag) ! j = (fst (gpus ! j), snd (gpus ! j), int j) \<and>
            runs (main be fuel lag) ! j
              = run_load_on_device be (fst (gpus ! j)) (snd (gpus ! j)) (int j) fuel"
    if "j < length (threads (main be fuel lag))" for j
  proof -
    from that have j: "j < length ?st" by (simp add: m(1))
    from start_threads_nth [OF j] j show ?thesis by (simp add: m(1,2))
  qed
  have own: "set (objects_used (fst (runs (main be fuel lag) ! j)))
              \<subseteq> set (objects_created (fst (runs (main be fuel lag) ! j)))"
    if "j < length (threads (main be fuel lag))" for j
    using nth [OF that] by (simp add: run_load_on_device_objects)
  have dis: "set (objects_used (fst (runs (main be fuel lag) ! j)))
               \<inter> set (objects_used (fst (runs (main be fuel lag) ! j'))) = {}"
    if d: "distinct (concat (map (\<lambda>r. objects_created (fst r)) (runs (main be fuel lag))))"
      and "j < j'" "j' < length (threads (main be fuel lag))" for j j'
  proof -
    have "set (map (\<lambda>r. objects_created (fst r)) (runs (main be fuel lag)) ! j)
        \<inter> set (map (\<lambda>r. objects_created (fst r)) (runs (main be fuel lag)) ! j') = {}"
      using d that(2,3) l by (intro distinct_concat_nth_disjoint) simp_all
    then have "set (objects_created (fst (runs (main be fuel lag) ! j)))
        \<inter> set (objects_created (fst (runs (main be fuel lag) ! j'))) = {}"
      using that(2,3) l by simp
    with own [of j] own [of j'] that(2,3) show ?thesis by fastforce
  qed
  show ?thesis using l le all nth own dis by blast
qed


text \<open>
  Claim C8 fails on the code, by the defect of claim C1: an exception that leaves a
  runner terminates the process, and when it does so within the 500 ms that \<open>main\<close>
  sleeps after starting that runner, the devices that remain get no runner. With two
  GPUs found and a kernel that does not compile for the first, one thread is started,
  not two.
\<close>

theorem early_exception_leaves_device_without_runner:
  "scan_platforms mock_build_failure (take 1 ([1] @ replicate 1 0)) []
     = ([], Inr [(1, 10), (1, 20)]) \<and>
   threads (main mock_build_failure fuel (\<lambda>i. 0)) = [(1, 10, 0)] \<and>
   length (runs (main mock_build_failure fuel (\<lambda>i. 0))) = 1 \<and>
   status (main mock_build_failure fuel (\<lambda>i. 0)) = Terminate"
proof -
  have r0: "threw (run_load_on_device mock_build_failure 1 10 0 fuel)"
    by (simp add: mock_defs eval_defs run_load_on_device_def create_queue_def)
  have h: "clGetPlatformIDs_count mock_build_failure = (CL_SUCCESS, 1)" "(0::nat) < 1"
    "clGetPlatformIDs_list mock_build_failure = (CL_SUCCESS, [1])"
    "scan_platforms mock_build_failure (take 1 ([1] @ replicate 1 0)) [] = ([], Inr [(1, 10), (1, 20)])"
    "[(1, 10), (1, 20)] \<noteq> ([] :: (nat \<times> nat) list)"
    by (simp_all add: mock_defs CL_SUCCESS_def CL_DEVICE_NOT_FOUND_def check_cl_error_def)
  note m = main_devices [OF h, of fuel "\<lambda>i. 0"]
  have st: "start_threads mock_build_failure fuel (\<lambda>i. 0) [(1, 10), (1, 20)] 0 None =
      [((1, 10, 0), run_load_on_device mock_build_failure 1 10 0 fuel)]"
    using r0 by (simp add: Let_def)
  show ?thesis
    using h(4) r0 by (simp add: m st)
qed

theorem early_exception_leaves_device_without_runner_witness:
  "length [(1::nat, 10::nat), (1, 20)] = 2 \<and>
   length (threads (main mock_build_failure 1 (\<lambda>i. 0))) = 1 \<and>
   status (main mock_build_failure 1 (\<lambda>i. 0)) = Terminate"
  using early_exception_leaves_device_without_runner [of 1] by simp

end
